theory Spec2Isabelle
  imports Complex_Main
begin

section \<open>Data model\<close>

text \<open>
  The pooling backend keeps three tables that matter here: drivers (vehicles), rides
  (trips) and bookings (passenger requests).  The store is modelled as three lists of
  rows in insertion order.  Identifiers are natural numbers.  JavaScript numbers are
  idealised as real numbers: rounding, NaN and infinities of IEEE doubles are outside
  the model.
\<close>

text \<open>
  Modelled from the spec: the Prisma schema (prisma/schema.prisma) with the enums
  DriverStatus, RideStatus and the booking status, and the columns of the three tables.
  The values are the ones the spec's data model lists and the source files use.
\<close>

datatype DriverStatus = AVAILABLE | BUSY

datatype RideStatus = SCHEDULED | COMPLETED

datatype BookingStatus = PENDING | CONFIRMED | CANCELLED

record Point =
  lat :: real
  lng :: real

record Driver =
  driver_id :: nat
  capacity :: int
  driver_status :: DriverStatus

record Ride =
  ride_id :: nat
  driverId :: nat
  path :: "Point list"
  ride_status :: RideStatus

record Booking =
  booking_id :: nat
  userId :: nat
  pickup :: Point
  dropoff :: Point
  price :: real
  booking_status :: BookingStatus
  rideId :: "nat option"

record db =
  drivers :: "Driver list"
  rides :: "Ride list"
  bookings :: "Booking list"

section \<open>utils/geo.ts\<close>

text \<open>\<open>Math.atan2(y, x)\<close> on finite arguments.\<close>

definition atan2 :: "real \<Rightarrow> real \<Rightarrow> real" where
  "atan2 y x =
     (if 0 < x then arctan (y / x)
      else if x < 0 then (if 0 \<le> y then arctan (y / x) + pi else arctan (y / x) - pi)
      else if 0 < y then pi / 2
      else if y < 0 then - (pi / 2)
      else 0)"

definition toRad :: "real \<Rightarrow> real" where
  "toRad val = (val * pi) / 180"

definition calculateDistance :: "Point \<Rightarrow> Point \<Rightarrow> real" where
  "calculateDistance p1 p2 =
     (let R = 6371;
          dLat = toRad (lat p2 - lat p1);
          dLng = toRad (lng p2 - lng p1);
          a = sin (dLat / 2) * sin (dLat / 2) +
              cos (toRad (lat p1)) * cos (toRad (lat p2)) *
              sin (dLng / 2) * sin (dLng / 2);
          c = 2 * atan2 (sqrt a) (sqrt (1 - a))
      in R * c)"

text \<open>
  The loop \<open>for (let i = 0; i < points.length - 1; i++)\<close>: for an empty array the bound
  is \<open>-1\<close> and the body never runs, which the truncating subtraction on \<open>nat\<close> gives too.
\<close>

definition calculatePathDistance :: "Point list \<Rightarrow> real" where
  "calculatePathDistance points =
     fold (\<lambda>i totalDistance. totalDistance + calculateDistance (points ! i) (points ! (i + 1)))
       [0 ..< length points - 1] 0"

section \<open>services/pooling.service.ts: the match scan\<close>

definition MAX_DEVIATION_PERCENT :: real where
  "MAX_DEVIATION_PERCENT = 0.5"

definition MAX_SEATS :: int where
  "MAX_SEATS = 4"

text \<open>
  A ride as \<open>findMany\<close> returns it with \<open>include: { bookings: true, driver: true }\<close>:
  the ride row, every booking whose \<open>rideId\<close> is the ride (whatever its status), and the
  driver row the ride references (absent only if the store holds a dangling reference).
\<close>

type_synonym RideWith = "Ride \<times> Booking list \<times> Driver option"

definition isPathValid :: "Ride \<Rightarrow> Booking list \<Rightarrow> Point \<Rightarrow> Point \<Rightarrow> bool" where
  "isPathValid ride ride_bookings newPickup newDropoff =
     (let currentPath = path ride;
          newPath = currentPath @ [newPickup, newDropoff];
          newTotalDist = calculatePathDistance newPath;
          directDistNew = calculateDistance newPickup newDropoff;
          sumDirectDistances =
            fold (\<lambda>booking s. s + calculateDistance (pickup booking) (dropoff booking))
              ride_bookings directDistNew;
          maxAllowedDist = sumDirectDistances * (1 + MAX_DEVIATION_PERCENT)
      in newTotalDist \<le> maxAllowedDist)"

datatype error = RecordNotFound | TypeError

text \<open>\<open>ride.driver.capacity || MAX_SEATS\<close>: a capacity of 0 is falsy.\<close>

definition seats :: "Driver \<Rightarrow> int" where
  "seats d = (if capacity d = 0 then MAX_SEATS else capacity d)"

text \<open>
  The scan of \<open>findExistingRide\<close> over the rides read.  Reading \<open>capacity\<close> of a missing
  driver throws.
\<close>

fun scanRides :: "RideWith list \<Rightarrow> Point \<Rightarrow> Point \<Rightarrow> error + Ride option" where
  "scanRides [] pickup' dropoff' = Inr None"
| "scanRides ((ride, bs, None) # rest) pickup' dropoff' = Inl TypeError"
| "scanRides ((ride, bs, Some d) # rest) pickup' dropoff' =
     (if int (length bs) \<ge> seats d then scanRides rest pickup' dropoff'
      else if isPathValid ride bs pickup' dropoff' then Inr (Some ride)
      else scanRides rest pickup' dropoff')"

section \<open>The store (Prisma client) as seen by the services\<close>

text \<open>
  \<open>update\<close> changes the row with the given primary key and throws when there is none;
  \<open>updateMany\<close> changes every row its filter selects and reports how many it changed;
  \<open>findUnique\<close> returns the row or null.  A transaction either returns the final
  store or an error, in which case the caller keeps the store it started from.
\<close>

definition updateWhere :: "('a \<Rightarrow> bool) \<Rightarrow> ('a \<Rightarrow> 'a) \<Rightarrow> 'a list \<Rightarrow> 'a list" where
  "updateWhere P f rows = map (\<lambda>row. if P row then f row else row) rows"

definition findUniqueBooking :: "db \<Rightarrow> nat \<Rightarrow> Booking option" where
  "findUniqueBooking s i = find (\<lambda>b. booking_id b = i) (bookings s)"

definition findUniqueRide :: "db \<Rightarrow> nat \<Rightarrow> Ride option" where
  "findUniqueRide s i = find (\<lambda>r. ride_id r = i) (rides s)"

definition findUniqueDriver :: "db \<Rightarrow> nat \<Rightarrow> Driver option" where
  "findUniqueDriver s i = find (\<lambda>d. driver_id d = i) (drivers s)"

definition updateBooking :: "nat \<Rightarrow> (Booking \<Rightarrow> Booking) \<Rightarrow> db \<Rightarrow> error + db" where
  "updateBooking i f s =
     (case findUniqueBooking s i of
        None \<Rightarrow> Inl RecordNotFound
      | Some _ \<Rightarrow> Inr (s\<lparr>bookings := updateWhere (\<lambda>b. booking_id b = i) f (bookings s)\<rparr>))"

definition updateRide :: "nat \<Rightarrow> (Ride \<Rightarrow> Ride) \<Rightarrow> db \<Rightarrow> error + (Ride \<times> db)" where
  "updateRide i f s =
     (case findUniqueRide s i of
        None \<Rightarrow> Inl RecordNotFound
      | Some r \<Rightarrow> Inr (f r, s\<lparr>rides := updateWhere (\<lambda>r. ride_id r = i) f (rides s)\<rparr>))"

definition updateDriver :: "nat \<Rightarrow> (Driver \<Rightarrow> Driver) \<Rightarrow> db \<Rightarrow> error + db" where
  "updateDriver i f s =
     (case findUniqueDriver s i of
        None \<Rightarrow> Inl RecordNotFound
      | Some _ \<Rightarrow> Inr (s\<lparr>drivers := updateWhere (\<lambda>d. driver_id d = i) f (drivers s)\<rparr>))"

text \<open>
  The conditional claim
  \<open>updateMany({ where: { id, status: AVAILABLE }, data: { status: BUSY } })\<close>:
  one indivisible step of the store that returns the number of rows changed.
\<close>

definition claimDriver :: "nat \<Rightarrow> db \<Rightarrow> nat \<times> db" where
  "claimDriver i s =
     (let hit = (\<lambda>d. driver_id d = i \<and> driver_status d = AVAILABLE)
      in (length (filter hit (drivers s)),
          s\<lparr>drivers := updateWhere hit (\<lambda>d. d\<lparr>driver_status := BUSY\<rparr>) (drivers s)\<rparr>))"

text \<open>The store assigns a new ride an identifier no ride has.\<close>

definition freshRideId :: "Ride list \<Rightarrow> nat" where
  "freshRideId rs = fold (\<lambda>r n. max n (Suc (ride_id r))) rs 0"

definition createRide :: "nat \<Rightarrow> Point list \<Rightarrow> db \<Rightarrow> Ride \<times> db" where
  "createRide did pth s =
     (let ride = \<lparr>ride_id = freshRideId (rides s), driverId = did, path = pth,
                  ride_status = SCHEDULED\<rparr>
      in (ride, s\<lparr>rides := rides s @ [ride]\<rparr>))"

definition findScheduledRides :: "db \<Rightarrow> RideWith list" where
  "findScheduledRides s =
     map (\<lambda>r. (r, filter (\<lambda>b. rideId b = Some (ride_id r)) (bookings s),
               findUniqueDriver s (driverId r)))
       (filter (\<lambda>r. ride_status r = SCHEDULED) (rides s))"

definition findAvailableDrivers :: "db \<Rightarrow> Driver list" where
  "findAvailableDrivers s = take 5 (filter (\<lambda>d. driver_status d = AVAILABLE) (drivers s))"

section \<open>services/pooling.service.ts: matchRide\<close>

definition findExistingRide :: "db \<Rightarrow> Point \<Rightarrow> Point \<Rightarrow> error + Ride option" where
  "findExistingRide s pickup' dropoff' = scanRides (findScheduledRides s) pickup' dropoff'"

definition confirmOn :: "nat \<Rightarrow> Booking \<Rightarrow> Booking" where
  "confirmOn rid b = b\<lparr>rideId := Some rid, booking_status := CONFIRMED\<rparr>"

definition addBookingToRide ::
  "db \<Rightarrow> nat \<Rightarrow> nat \<Rightarrow> Point \<Rightarrow> Point \<Rightarrow> (error + Ride option) \<times> db" where
  "addBookingToRide s rid bookingId pickup' dropoff' =
     (let currentPath = (case findUniqueRide s rid of None \<Rightarrow> [] | Some r \<Rightarrow> path r);
          newPath = currentPath @ [pickup', dropoff']
      in case updateBooking bookingId (confirmOn rid) s of
           Inl e \<Rightarrow> (Inl e, s)
         | Inr s1 \<Rightarrow>
             (case updateRide rid (\<lambda>r. r\<lparr>path := newPath\<rparr>) s1 of
                Inl e \<Rightarrow> (Inl e, s)
              | Inr (r, s2) \<Rightarrow> (Inr (Some r), s2)))"

text \<open>The transaction of \<open>createNewRide\<close>: create the ride, then confirm the booking.\<close>

definition createRideTx :: "db \<Rightarrow> nat \<Rightarrow> nat \<Rightarrow> Point \<Rightarrow> Point \<Rightarrow> error + (Ride \<times> db)" where
  "createRideTx s did bookingId pickup' dropoff' =
     (case createRide did [pickup', dropoff'] s of
        (ride, s1) \<Rightarrow>
          (case updateBooking bookingId (confirmOn (ride_id ride)) s1 of
             Inl e \<Rightarrow> Inl e
           | Inr s2 \<Rightarrow> Inr (ride, s2)))"

text \<open>
  The loop of \<open>createNewRide\<close> over the candidates read.  The list of candidates is a
  parameter: it was read before the loop, and under contention it need not agree with the
  store the claims run against.  A failed transaction is compensated by setting the driver
  back to AVAILABLE, and the loop returns null without trying further candidates.
\<close>

fun claimLoop ::
  "Driver list \<Rightarrow> db \<Rightarrow> nat \<Rightarrow> Point \<Rightarrow> Point \<Rightarrow> (error + Ride option) \<times> db" where
  "claimLoop [] s bookingId pickup' dropoff' = (Inr None, s)"
| "claimLoop (candidate # rest) s bookingId pickup' dropoff' =
     (case claimDriver (driver_id candidate) s of
        (count, s1) \<Rightarrow>
          if count > 0 then
            (case createRideTx s1 (driver_id candidate) bookingId pickup' dropoff' of
               Inr (ride, s2) \<Rightarrow> (Inr (Some ride), s2)
             | Inl err \<Rightarrow>
                 (case updateDriver (driver_id candidate)
                         (\<lambda>d. d\<lparr>driver_status := AVAILABLE\<rparr>) s1 of
                    Inl e \<Rightarrow> (Inl e, s1)
                  | Inr s3 \<Rightarrow> (Inr None, s3)))
          else claimLoop rest s1 bookingId pickup' dropoff')"

definition createNewRide :: "db \<Rightarrow> nat \<Rightarrow> Point \<Rightarrow> Point \<Rightarrow> (error + Ride option) \<times> db" where
  "createNewRide s bookingId pickup' dropoff' =
     claimLoop (findAvailableDrivers s) s bookingId pickup' dropoff'"

definition matchRide :: "db \<Rightarrow> nat \<Rightarrow> Point \<Rightarrow> Point \<Rightarrow> (error + Ride option) \<times> db" where
  "matchRide s bookingId pickup' dropoff' =
     (case findExistingRide s pickup' dropoff' of
        Inl e \<Rightarrow> (Inl e, s)
      | Inr (Some existingRide) \<Rightarrow>
          addBookingToRide s (ride_id existingRide) bookingId pickup' dropoff'
      | Inr None \<Rightarrow> createNewRide s bookingId pickup' dropoff')"

section \<open>controllers/booking.controller.ts\<close>

text \<open>
  A JSON value of a request or response body; an absent property is \<open>None\<close>
  (\<open>undefined\<close>).
\<close>

datatype json = JNull | JBool bool | JNum real | JStr string
  | JArr "json list" | JObj "(string \<times> json) list"

datatype HttpResponse = Response nat json

definition errorBody :: "string \<Rightarrow> json" where
  "errorBody msg = JObj [(''error'', JStr msg)]"

text \<open>
  The booking read by \<open>cancelBooking\<close> with
  \<open>include: { ride: { include: { bookings: true } } }\<close>.
\<close>

definition bookingRide :: "db \<Rightarrow> Booking \<Rightarrow> (Ride \<times> Booking list) option" where
  "bookingRide s booking =
     (case rideId booking of
        None \<Rightarrow> None
      | Some rid \<Rightarrow>
          (case findUniqueRide s rid of
             None \<Rightarrow> None
           | Some ride \<Rightarrow> Some (ride, filter (\<lambda>b. rideId b = Some rid) (bookings s))))"

definition cancelTx :: "db \<Rightarrow> Booking \<Rightarrow> (Ride \<times> Booking list) option \<Rightarrow> error + db" where
  "cancelTx s booking bride =
     (case updateBooking (booking_id booking) (\<lambda>b. b\<lparr>booking_status := CANCELLED\<rparr>) s of
        Inl e \<Rightarrow> Inl e
      | Inr s1 \<Rightarrow>
          (case bride of
             None \<Rightarrow> Inr s1
           | Some (ride, ride_bookings) \<Rightarrow>
               (let activeBookingsCount =
                      length (filter (\<lambda>b. booking_id b \<noteq> booking_id booking
                                          \<and> booking_status b \<noteq> CANCELLED) ride_bookings)
                in if activeBookingsCount = 0 then
                     (case updateRide (ride_id ride) (\<lambda>r. r\<lparr>ride_status := COMPLETED\<rparr>) s1 of
                        Inl e \<Rightarrow> Inl e
                      | Inr (_, s2) \<Rightarrow>
                          updateDriver (driverId ride)
                            (\<lambda>d. d\<lparr>driver_status := AVAILABLE\<rparr>) s2)
                   else Inr s1)))"

text \<open>The route parameter \<open>id\<close> is \<open>None\<close> when it is absent or the empty string.\<close>

definition cancelBooking :: "db \<Rightarrow> nat option \<Rightarrow> HttpResponse \<times> db" where
  "cancelBooking s idParam =
     (case idParam of
        None \<Rightarrow> (Response 400 (errorBody ''Booking ID is required''), s)
      | Some i \<Rightarrow>
          (case findUniqueBooking s i of
             None \<Rightarrow> (Response 404 (errorBody ''Booking not found''), s)
           | Some booking \<Rightarrow>
               if booking_status booking = CANCELLED
               then (Response 400 (errorBody ''Booking already cancelled''), s)
               else (case cancelTx s booking (bookingRide s booking) of
                       Inl e \<Rightarrow> (Response 500 (errorBody ''Failed to cancel booking''), s)
                     | Inr s' \<Rightarrow>
                         (Response 200
                            (JObj [(''message'', JStr ''Booking cancelled successfully'')]),
                          s'))))"

text \<open>JavaScript truthiness of a JSON value and property access on it.\<close>

fun truthy :: "json option \<Rightarrow> bool" where
  "truthy None = False"
| "truthy (Some JNull) = False"
| "truthy (Some (JBool b)) = b"
| "truthy (Some (JNum x)) = (x \<noteq> 0)"
| "truthy (Some (JStr str)) = (str \<noteq> [])"
| "truthy (Some (JArr xs)) = True"
| "truthy (Some (JObj kvs)) = True"

fun getProp :: "json option \<Rightarrow> string \<Rightarrow> json option" where
  "getProp (Some (JObj kvs)) k = map_of kvs k"
| "getProp v k = None"

text \<open>
  \<open>createBooking\<close> up to the end of its input validation.  The body is \<open>None\<close> when
  \<open>req.body\<close> is undefined.  The handler first destructures the body, which throws for
  undefined and for null; the catch of the handler then answers 500, nothing having been
  written.  Every other JSON value can be destructured, its missing properties being
  undefined.  What follows the validation (pricing, inserting the PENDING booking,
  \<open>matchRide\<close>, the 201 response, and the catch around them) is the parameter
  \<open>proceed\<close>, which receives the store and the three values read from the body.
\<close>

definition createBooking ::
  "(db \<Rightarrow> json option \<Rightarrow> json option \<Rightarrow> json option \<Rightarrow> HttpResponse \<times> db)
     \<Rightarrow> db \<Rightarrow> json option \<Rightarrow> HttpResponse \<times> db" where
  "createBooking proceed s body =
     (if body = None \<or> body = Some JNull then
        (Response 500 (errorBody ''Failed to create booking''), s)
      else
        (let userId' = getProp body ''userId'';
             pickup' = getProp body ''pickup'';
             dropoff' = getProp body ''dropoff''
         in if \<not> truthy pickup' then
              (Response 400 (errorBody ''Invalid pickup or dropoff coordinates''), s)
            else if \<not> truthy dropoff' then
              (Response 400 (errorBody ''Invalid pickup or dropoff coordinates''), s)
            else if \<not> truthy (getProp pickup' ''lat'') then
              (Response 400 (errorBody ''Invalid pickup or dropoff coordinates''), s)
            else if \<not> truthy (getProp dropoff' ''lat'') then
              (Response 400 (errorBody ''Invalid pickup or dropoff coordinates''), s)
            else proceed s userId' pickup' dropoff'))"

section \<open>Notions used to state the properties\<close>

text \<open>
  The length of a path as the sum of the distances between consecutive stops, and the
  two readings of the sum of direct distances: over every attached booking, and over the
  attached bookings that are not cancelled.
\<close>

fun pathLength :: "Point list \<Rightarrow> real" where
  "pathLength (a # b # rest) = calculateDistance a b + pathLength (b # rest)"
| "pathLength _ = 0"

definition directDistance :: "Booking \<Rightarrow> real" where
  "directDistance b = calculateDistance (pickup b) (dropoff b)"

definition sumDirectAll :: "Point \<Rightarrow> Point \<Rightarrow> Booking list \<Rightarrow> real" where
  "sumDirectAll newPickup newDropoff bs =
     calculateDistance newPickup newDropoff + sum_list (map directDistance bs)"

definition sumDirectActive :: "Point \<Rightarrow> Point \<Rightarrow> Booking list \<Rightarrow> real" where
  "sumDirectActive newPickup newDropoff bs =
     calculateDistance newPickup newDropoff +
     sum_list (map directDistance (filter (\<lambda>b. booking_status b \<noteq> CANCELLED) bs))"

definition activeCount :: "Booking list \<Rightarrow> nat" where
  "activeCount bs = length (filter (\<lambda>b. booking_status b \<noteq> CANCELLED) bs)"

definition attachedTo :: "db \<Rightarrow> nat \<Rightarrow> Booking list" where
  "attachedTo s rid = filter (\<lambda>b. rideId b = Some rid) (bookings s)"

definition cancelled :: "Booking \<Rightarrow> Booking" where
  "cancelled b = b\<lparr>booking_status := CANCELLED\<rparr>"

text \<open>The bookings of a ride, other than booking \<open>i\<close>, that are not cancelled.\<close>

definition otherActive :: "db \<Rightarrow> nat \<Rightarrow> nat \<Rightarrow> Booking list" where
  "otherActive s rid i =
     filter (\<lambda>b. rideId b = Some rid \<and> booking_id b \<noteq> i \<and> booking_status b \<noteq> CANCELLED)
       (bookings s)"

definition claimHit :: "nat \<Rightarrow> Driver \<Rightarrow> bool" where
  "claimHit i d = (driver_id d = i \<and> driver_status d = AVAILABLE)"

definition markBusy :: "Driver \<Rightarrow> Driver" where
  "markBusy d = d\<lparr>driver_status := BUSY\<rparr>"

definition newRide :: "db \<Rightarrow> nat \<Rightarrow> Point \<Rightarrow> Point \<Rightarrow> Ride" where
  "newRide s did p d = \<lparr>ride_id = freshRideId (rides s), driverId = did, path = [p, d],
     ride_status = SCHEDULED\<rparr>"

text \<open>
  Concurrent claims on one driver.  Every caller issues the conditional update of
  \<open>claimDriver\<close>, which the store executes as one indivisible statement, so an
  interleaving of the callers is the order in which the store runs their statements:
  the list \<open>callers\<close>.  The result pairs every caller with the row count reported to it.
\<close>

fun claimAttempts :: "nat \<Rightarrow> 'c list \<Rightarrow> db \<Rightarrow> ('c \<times> nat) list \<times> db" where
  "claimAttempts i [] s = ([], s)"
| "claimAttempts i (caller # rest) s =
     (case claimDriver i s of
        (count, s1) \<Rightarrow>
          (case claimAttempts i rest s1 of
             (results, s2) \<Rightarrow> ((caller, count) # results, s2)))"

definition successes :: "('c \<times> nat) list \<Rightarrow> 'c list" where
  "successes results = map fst (filter (\<lambda>r. 0 < snd r) results)"

text \<open>
  Sequences of operations on the store.  No operation deletes a ride, so the number of
  ride rows is the number of rides ever created when the run starts without rides.
\<close>

datatype operation = MatchRequest nat Point Point | CancelRequest "nat option"

fun step :: "db \<Rightarrow> operation \<Rightarrow> db" where
  "step s (MatchRequest bookingId p d) = snd (matchRide s bookingId p d)"
| "step s (CancelRequest idParam) = snd (cancelBooking s idParam)"

definition run :: "db \<Rightarrow> operation list \<Rightarrow> db" where
  "run s ops = foldl step s ops"

fun isMatch :: "operation \<Rightarrow> bool" where
  "isMatch (MatchRequest bookingId p d) = True"
| "isMatch (CancelRequest idParam) = False"

definition busyCount :: "db \<Rightarrow> nat" where
  "busyCount s = length (filter (\<lambda>v. driver_status v = BUSY) (drivers s))"

definition scheduledCount :: "db \<Rightarrow> nat" where
  "scheduledCount s = length (filter (\<lambda>r. ride_status r = SCHEDULED) (rides s))"

definition tripsCreated :: "db \<Rightarrow> nat" where
  "tripsCreated s = length (rides s)"

text \<open>
  The invariant behind the count: primary keys are unique, the open rides reference
  pairwise different drivers, these are exactly the BUSY drivers, and a booking that is
  not cancelled references no closed ride.
\<close>

definition schedDrivers :: "db \<Rightarrow> nat list" where
  "schedDrivers s = map driverId (filter (\<lambda>r. ride_status r = SCHEDULED) (rides s))"

definition busyIds :: "db \<Rightarrow> nat list" where
  "busyIds s = map driver_id (filter (\<lambda>v. driver_status v = BUSY) (drivers s))"

definition openRefs :: "db \<Rightarrow> bool" where
  "openRefs s =
     (\<forall>b\<in>set (bookings s). booking_status b \<noteq> CANCELLED \<longrightarrow>
        (\<forall>r\<in>set (rides s). rideId b = Some (ride_id r) \<longrightarrow> ride_status r = SCHEDULED))"

definition consistent :: "db \<Rightarrow> bool" where
  "consistent s =
     (distinct (map driver_id (drivers s)) \<and> distinct (map ride_id (rides s)) \<and>
      distinct (schedDrivers s) \<and> set (schedDrivers s) = set (busyIds s) \<and> openRefs s)"

definition release :: "Driver \<Rightarrow> Driver" where
  "release v = v\<lparr>driver_status := AVAILABLE\<rparr>"

definition closeRide :: "Ride \<Rightarrow> Ride" where
  "closeRide r = r\<lparr>ride_status := COMPLETED\<rparr>"

text \<open>The JSON values JavaScript treats as false, with the absent property.\<close>

definition absentOrFalsy :: "json option \<Rightarrow> bool" where
  "absentOrFalsy v =
     (v = None \<or> v = Some JNull \<or> v = Some (JBool False) \<or> v = Some (JNum 0)
      \<or> v = Some (JStr []))"

definition coordinatesRejected :: "json option \<Rightarrow> bool" where
  "coordinatesRejected body =
     (let pk = getProp body ''pickup''; dp = getProp body ''dropoff''
      in absentOrFalsy pk \<or> absentOrFalsy dp \<or> absentOrFalsy (getProp pk ''lat'')
         \<or> absentOrFalsy (getProp dp ''lat''))"

text \<open>The bodies the handler cannot destructure: undefined and null.\<close>

definition bodyThrows :: "json option \<Rightarrow> bool" where
  "bodyThrows body = (body = None \<or> body = Some JNull)"

definition failedToCreate :: HttpResponse where
  "failedToCreate = Response 500 (errorBody ''Failed to create booking'')"

definition invalidCoordinates :: HttpResponse where
  "invalidCoordinates = Response 400 (errorBody ''Invalid pickup or dropoff coordinates'')"

definition cancelledOk :: HttpResponse where
  "cancelledOk = Response 200 (JObj [(''message'', JStr ''Booking cancelled successfully'')])"

section \<open>Concrete stores and requests\<close>

text \<open>
  The two poles are 6371 * pi km apart on every meridian, and the haversine formula
  evaluates there in closed form.
\<close>

definition northPole :: Point where
  "northPole = \<lparr>lat = 90, lng = 0\<rparr>"

definition southPole :: Point where
  "southPole = \<lparr>lat = -90, lng = 0\<rparr>"

definition mkDriver :: "nat \<Rightarrow> DriverStatus \<Rightarrow> Driver" where
  "mkDriver i st = \<lparr>driver_id = i, capacity = 4, driver_status = st\<rparr>"

definition mkRide :: "nat \<Rightarrow> nat \<Rightarrow> Point list \<Rightarrow> RideStatus \<Rightarrow> Ride" where
  "mkRide i did pth st = \<lparr>ride_id = i, driverId = did, path = pth, ride_status = st\<rparr>"

definition mkBooking :: "nat \<Rightarrow> Point \<Rightarrow> Point \<Rightarrow> BookingStatus \<Rightarrow> nat option \<Rightarrow> Booking" where
  "mkBooking i p d st r = \<lparr>booking_id = i, userId = i, pickup = p, dropoff = d, price = 100,
     booking_status = st, rideId = r\<rparr>"

text \<open>
  A store with two open rides of two pairs of stops each: the first booking of ride 0 is
  cancelled, ride 1 has two confirmed bookings, booking 4 waits for a ride and driver 2
  is idle.
\<close>

definition poolDb :: db where
  "poolDb = \<lparr>
     drivers = [mkDriver 0 BUSY, mkDriver 1 BUSY, mkDriver 2 AVAILABLE],
     rides = [mkRide 0 0 [northPole, southPole, southPole, northPole] SCHEDULED,
              mkRide 1 1 [northPole, southPole, southPole, northPole] SCHEDULED],
     bookings = [mkBooking 0 northPole southPole CANCELLED (Some 0),
                 mkBooking 1 southPole northPole CONFIRMED (Some 0),
                 mkBooking 2 northPole southPole CONFIRMED (Some 1),
                 mkBooking 3 southPole northPole CONFIRMED (Some 1),
                 mkBooking 4 northPole southPole PENDING None]\<rparr>"

text \<open>
  A store whose only driver has four seats and serves one ride with four attached
  bookings, the last of them cancelled; booking 4 waits for a ride.
\<close>

definition fullRide :: Ride where
  "fullRide = mkRide 0 0 [northPole, southPole, southPole, northPole,
                          northPole, southPole, southPole, northPole] SCHEDULED"

definition fullRideBookings :: "Booking list" where
  "fullRideBookings = [mkBooking 0 northPole southPole CONFIRMED (Some 0),
                       mkBooking 1 southPole northPole CONFIRMED (Some 0),
                       mkBooking 2 northPole southPole CONFIRMED (Some 0),
                       mkBooking 3 southPole northPole CANCELLED (Some 0)]"

definition fullDb :: db where
  "fullDb = \<lparr>drivers = [mkDriver 0 BUSY], rides = [fullRide],
     bookings = fullRideBookings @ [mkBooking 4 northPole southPole PENDING None]\<rparr>"

text \<open>
  A store with two idle drivers, a closed ride whose booking was cancelled, and a booking
  waiting for a ride.
\<close>

definition idleDb :: db where
  "idleDb = \<lparr>
     drivers = [mkDriver 0 AVAILABLE, mkDriver 1 AVAILABLE],
     rides = [mkRide 0 0 [northPole, southPole] COMPLETED],
     bookings = [mkBooking 0 northPole southPole CANCELLED (Some 0),
                 mkBooking 1 southPole northPole PENDING None]\<rparr>"

text \<open>A store with one idle driver, no ride and two bookings waiting.\<close>

definition oneDriverDb :: db where
  "oneDriverDb = \<lparr>
     drivers = [mkDriver 0 AVAILABLE],
     rides = [],
     bookings = [mkBooking 0 northPole southPole PENDING None,
                 mkBooking 1 southPole northPole PENDING None]\<rparr>"

text \<open>The store from which the operations of the API lead to \<open>fullDb\<close>.\<close>

definition waitingDb :: db where
  "waitingDb = \<lparr>drivers = [mkDriver 0 AVAILABLE], rides = [],
     bookings = [mkBooking 0 northPole southPole PENDING None,
                 mkBooking 1 southPole northPole PENDING None,
                 mkBooking 2 northPole southPole PENDING None,
                 mkBooking 3 southPole northPole PENDING None,
                 mkBooking 4 northPole southPole PENDING None]\<rparr>"

text \<open>The store after booking 0 of \<open>waitingDb\<close> has been matched.\<close>

definition startedDb :: db where
  "startedDb = \<lparr>drivers = [mkDriver 0 BUSY],
     rides = [mkRide 0 0 [northPole, southPole] SCHEDULED],
     bookings = [mkBooking 0 northPole southPole CONFIRMED (Some 0),
                 mkBooking 1 southPole northPole PENDING None,
                 mkBooking 2 northPole southPole PENDING None,
                 mkBooking 3 southPole northPole PENDING None,
                 mkBooking 4 northPole southPole PENDING None]\<rparr>"

text \<open>
  The store after bookings 0 and 1 of \<open>waitingDb\<close> have been matched and booking 0 has
  been cancelled.
\<close>

definition detourDb :: db where
  "detourDb = \<lparr>drivers = [mkDriver 0 BUSY],
     rides = [mkRide 0 0 [northPole, southPole, southPole, northPole] SCHEDULED],
     bookings = [mkBooking 0 northPole southPole CANCELLED (Some 0),
                 mkBooking 1 southPole northPole CONFIRMED (Some 0),
                 mkBooking 2 northPole southPole PENDING None,
                 mkBooking 3 southPole northPole PENDING None,
                 mkBooking 4 northPole southPole PENDING None]\<rparr>"

definition emptyDb :: db where
  "emptyDb = \<lparr>drivers = [], rides = [], bookings = []\<rparr>"

definition echo :: "db \<Rightarrow> json option \<Rightarrow> json option \<Rightarrow> json option \<Rightarrow> HttpResponse \<times> db" where
  "echo s u p d = (Response 201 JNull, s)"

definition bodyEquator :: json where
  "bodyEquator = JObj [(''userId'', JNum 1),
     (''pickup'', JObj [(''lat'', JNum 0), (''lng'', JNum 36)]),
     (''dropoff'', JObj [(''lat'', JNum 1), (''lng'', JNum 36)])]"

definition bodyNoLng :: json where
  "bodyNoLng = JObj [(''userId'', JNum 1),
     (''pickup'', JObj [(''lat'', JNum 10), (''lng'', JStr ''east'')]),
     (''dropoff'', JObj [(''lat'', JNum 11)])]"

section \<open>Distances and the deviation check\<close>

lemma calculateDistance_same: "calculateDistance p p = 0"
  by (simp add: calculateDistance_def toRad_def atan2_def)

lemma calculateDistance_north_south: "calculateDistance northPole southPole = 6371 * pi"
  by (simp add: calculateDistance_def toRad_def atan2_def northPole_def southPole_def Let_def)

lemma calculateDistance_south_north: "calculateDistance southPole northPole = 6371 * pi"
  by (simp add: calculateDistance_def toRad_def atan2_def northPole_def southPole_def Let_def)

lemmas pole_distances =
  calculateDistance_same calculateDistance_north_south calculateDistance_south_north

lemma fold_add_acc: "fold (\<lambda>x (t::real). t + f x) xs a = a + sum_list (map f xs)"
  by (induction xs arbitrary: a) auto

text \<open>The index loop of \<open>calculatePathDistance\<close> adds up the consecutive distances.\<close>

lemma calculatePathDistance_pathLength: "calculatePathDistance ps = pathLength ps"
proof (induction ps rule: pathLength.induct)
  case (1 a b rest)
  have "[0..<length (a # b # rest) - 1] = 0 # map Suc [0..<length (b # rest) - 1]"
    by (simp add: upt_conv_Cons map_Suc_upt del: upt_Suc)
  then show ?case using 1
    by (simp add: calculatePathDistance_def fold_add_acc comp_def del: upt_Suc)
qed (simp_all add: calculatePathDistance_def)

lemma isPathValid_iff:
  "isPathValid ride bs p d \<longleftrightarrow>
     pathLength (path ride @ [p, d]) \<le> sumDirectAll p d bs * (1 + 1 / 2)"
  by (simp add: isPathValid_def Let_def calculatePathDistance_pathLength fold_add_acc
      sumDirectAll_def directDistance_def[abs_def] MAX_DEVIATION_PERCENT_def)

lemmas example_simps = mkDriver_def mkRide_def mkBooking_def
  findUniqueBooking_def findUniqueRide_def findUniqueDriver_def updateWhere_def

section \<open>Runs that lead to the example stores\<close>

lemmas run_simps = matchRide_def findExistingRide_def findScheduledRides_def
  createNewRide_def findAvailableDrivers_def claimDriver_def createRideTx_def
  createRide_def freshRideId_def updateBooking_def confirmOn_def addBookingToRide_def
  updateRide_def updateDriver_def cancelBooking_def cancelTx_def bookingRide_def
  seats_def MAX_SEATS_def isPathValid_iff sumDirectAll_def directDistance_def
  pole_distances example_simps Let_def

lemma waiting_step1:
  "step waitingDb (MatchRequest 0 northPole southPole) =
     waitingDb\<lparr>drivers := [mkDriver 0 BUSY],
       rides := [mkRide 0 0 [northPole, southPole] SCHEDULED],
       bookings := [mkBooking 0 northPole southPole CONFIRMED (Some 0),
                 mkBooking 1 southPole northPole PENDING None,
                 mkBooking 2 northPole southPole PENDING None,
                 mkBooking 3 southPole northPole PENDING None,
                 mkBooking 4 northPole southPole PENDING None]\<rparr>"
  by (simp add: waitingDb_def run_simps)

lemma waiting_step2:
  "step (waitingDb\<lparr>drivers := [mkDriver 0 BUSY],
       rides := [mkRide 0 0 [northPole, southPole] SCHEDULED],
       bookings := [mkBooking 0 northPole southPole CONFIRMED (Some 0),
                 mkBooking 1 southPole northPole PENDING None,
                 mkBooking 2 northPole southPole PENDING None,
                 mkBooking 3 southPole northPole PENDING None,
                 mkBooking 4 northPole southPole PENDING None]\<rparr>)
     (MatchRequest 1 southPole northPole) =
     waitingDb\<lparr>drivers := [mkDriver 0 BUSY],
       rides := [mkRide 0 0 [northPole, southPole, southPole, northPole] SCHEDULED],
       bookings := [mkBooking 0 northPole southPole CONFIRMED (Some 0),
                 mkBooking 1 southPole northPole CONFIRMED (Some 0),
                 mkBooking 2 northPole southPole PENDING None,
                 mkBooking 3 southPole northPole PENDING None,
                 mkBooking 4 northPole southPole PENDING None]\<rparr>"
  by (simp add: waitingDb_def run_simps)

lemma waiting_step3:
  "step (waitingDb\<lparr>drivers := [mkDriver 0 BUSY],
       rides := [mkRide 0 0 [northPole, southPole, southPole, northPole] SCHEDULED],
       bookings := [mkBooking 0 northPole southPole CONFIRMED (Some 0),
                 mkBooking 1 southPole northPole CONFIRMED (Some 0),
                 mkBooking 2 northPole southPole PENDING None,
                 mkBooking 3 southPole northPole PENDING None,
                 mkBooking 4 northPole southPole PENDING None]\<rparr>)
     (MatchRequest 2 northPole southPole) =
     waitingDb\<lparr>drivers := [mkDriver 0 BUSY],
       rides := [mkRide 0 0 [northPole, southPole, southPole, northPole,
                             northPole, southPole] SCHEDULED],
       bookings := [mkBooking 0 northPole southPole CONFIRMED (Some 0),
                 mkBooking 1 southPole northPole CONFIRMED (Some 0),
                 mkBooking 2 northPole southPole CONFIRMED (Some 0),
                 mkBooking 3 southPole northPole PENDING None,
                 mkBooking 4 northPole southPole PENDING None]\<rparr>"
  by (simp add: waitingDb_def run_simps)

lemma waiting_step4:
  "step (waitingDb\<lparr>drivers := [mkDriver 0 BUSY],
       rides := [mkRide 0 0 [northPole, southPole, southPole, northPole,
                             northPole, southPole] SCHEDULED],
       bookings := [mkBooking 0 northPole southPole CONFIRMED (Some 0),
                 mkBooking 1 southPole northPole CONFIRMED (Some 0),
                 mkBooking 2 northPole southPole CONFIRMED (Some 0),
                 mkBooking 3 southPole northPole PENDING None,
                 mkBooking 4 northPole southPole PENDING None]\<rparr>)
     (MatchRequest 3 southPole northPole) =
     waitingDb\<lparr>drivers := [mkDriver 0 BUSY],
       rides := [mkRide 0 0 [northPole, southPole, southPole, northPole,
                             northPole, southPole, southPole, northPole] SCHEDULED],
       bookings := [mkBooking 0 northPole southPole CONFIRMED (Some 0),
                 mkBooking 1 southPole northPole CONFIRMED (Some 0),
                 mkBooking 2 northPole southPole CONFIRMED (Some 0),
                 mkBooking 3 southPole northPole CONFIRMED (Some 0),
                 mkBooking 4 northPole southPole PENDING None]\<rparr>"
  by (simp add: waitingDb_def run_simps)

lemma waiting_step5:
  "step (waitingDb\<lparr>drivers := [mkDriver 0 BUSY],
       rides := [mkRide 0 0 [northPole, southPole, southPole, northPole,
                             northPole, southPole, southPole, northPole] SCHEDULED],
       bookings := [mkBooking 0 northPole southPole CONFIRMED (Some 0),
                 mkBooking 1 southPole northPole CONFIRMED (Some 0),
                 mkBooking 2 northPole southPole CONFIRMED (Some 0),
                 mkBooking 3 southPole northPole CONFIRMED (Some 0),
                 mkBooking 4 northPole southPole PENDING None]\<rparr>)
     (CancelRequest (Some 3)) = fullDb"
  by (simp add: waitingDb_def fullDb_def fullRide_def fullRideBookings_def run_simps)

lemma waiting_run:
  "run waitingDb [MatchRequest 0 northPole southPole, MatchRequest 1 southPole northPole,
                  MatchRequest 2 northPole southPole, MatchRequest 3 southPole northPole,
                  CancelRequest (Some 3)] = fullDb"
  by (simp only: run_def foldl.simps waiting_step1 waiting_step2 waiting_step3 waiting_step4
      waiting_step5)

lemma waiting_cancel_first:
  "step (waitingDb\<lparr>drivers := [mkDriver 0 BUSY],
       rides := [mkRide 0 0 [northPole, southPole, southPole, northPole] SCHEDULED],
       bookings := [mkBooking 0 northPole southPole CONFIRMED (Some 0),
                 mkBooking 1 southPole northPole CONFIRMED (Some 0),
                 mkBooking 2 northPole southPole PENDING None,
                 mkBooking 3 southPole northPole PENDING None,
                 mkBooking 4 northPole southPole PENDING None]\<rparr>)
     (CancelRequest (Some 0)) = detourDb"
  by (simp add: waitingDb_def detourDb_def run_simps)

lemma detour_run:
  "run waitingDb [MatchRequest 0 northPole southPole, MatchRequest 1 southPole northPole,
                  CancelRequest (Some 0)] = detourDb"
  by (simp only: run_def foldl.simps waiting_step1 waiting_step2 waiting_cancel_first)

lemma started_run: "run waitingDb [MatchRequest 0 northPole southPole] = startedDb"
  by (simp only: run_def foldl.simps waiting_step1) (simp add: waitingDb_def startedDb_def)

section \<open>The deviation check of the match scan\<close>

text \<open>
  C2 at a ride with a cancelled booking.  Write D for 6371 * pi km, the distance between
  the poles.  Matching bookings 0 and 1 of \<open>waitingDb\<close> and cancelling booking 0 gives
  \<open>detourDb\<close>: ride 0 has the path [N, S, S, N] and two attached bookings of direct
  distance D each, the first of them cancelled.  For a new request from the south to the
  north pole the path grows to 4 D.  The sum of the direct distances of the new request
  and of the attached bookings that are not cancelled is 2 D, so the bound of the
  property is 3 D and the request is not admissible; the code adds the cancelled booking
  to the sum, which gives 3 D and the bound 4.5 D, and the match scan admits the request:
  \<open>matchRide\<close> attaches booking 3 to ride 0.  On \<open>startedDb\<close>, where no booking is
  cancelled, the scan does apply the bound: a request from the north pole to the north
  pole would make the path 2 D long against a bound of 1.5 D, and the scan refuses it.
\<close>

theorem deviation_check_counts_cancelled:
  "run waitingDb [MatchRequest 0 northPole southPole, MatchRequest 1 southPole northPole,
                  CancelRequest (Some 0)] = detourDb \<and>
   findScheduledRides detourDb =
     [(mkRide 0 0 [northPole, southPole, southPole, northPole] SCHEDULED,
       attachedTo detourDb 0, Some (mkDriver 0 BUSY))] \<and>
   activeCount (attachedTo detourDb 0) = 1 \<and>
   pathLength ([northPole, southPole, southPole, northPole] @ [southPole, northPole])
     = 4 * (6371 * pi) \<and>
   sumDirectActive southPole northPole (attachedTo detourDb 0) = 2 * (6371 * pi) \<and>
   sumDirectAll southPole northPole (attachedTo detourDb 0) = 3 * (6371 * pi) \<and>
   \<not> pathLength ([northPole, southPole, southPole, northPole] @ [southPole, northPole])
       \<le> sumDirectActive southPole northPole (attachedTo detourDb 0) * (1 + 0.5) \<and>
   findExistingRide detourDb southPole northPole =
     Inr (Some (mkRide 0 0 [northPole, southPole, southPole, northPole] SCHEDULED)) \<and>
   fst (matchRide detourDb 3 southPole northPole) =
     Inr (Some (mkRide 0 0 [northPole, southPole, southPole, northPole,
                            southPole, northPole] SCHEDULED)) \<and>
   run waitingDb [MatchRequest 0 northPole southPole] = startedDb \<and>
   findExistingRide startedDb northPole northPole = Inr None"
proof -
  have v: "findScheduledRides detourDb =
     [(mkRide 0 0 [northPole, southPole, southPole, northPole] SCHEDULED,
       attachedTo detourDb 0, Some (mkDriver 0 BUSY))]"
    by (simp add: findScheduledRides_def attachedTo_def detourDb_def example_simps)
  have c: "activeCount (attachedTo detourDb 0) = 1"
    by (simp add: activeCount_def attachedTo_def detourDb_def example_simps)
  have l: "pathLength ([northPole, southPole, southPole, northPole] @ [southPole, northPole])
     = 4 * (6371 * pi)"
    by (simp add: pole_distances)
  have a: "sumDirectActive southPole northPole (attachedTo detourDb 0) = 2 * (6371 * pi)"
    by (simp add: attachedTo_def detourDb_def example_simps sumDirectActive_def
        directDistance_def pole_distances)
  have b: "sumDirectAll southPole northPole (attachedTo detourDb 0) = 3 * (6371 * pi)"
    by (simp add: attachedTo_def detourDb_def example_simps sumDirectAll_def
        directDistance_def pole_distances)
  have n: "\<not> pathLength ([northPole, southPole, southPole, northPole] @ [southPole, northPole])
       \<le> sumDirectActive southPole northPole (attachedTo detourDb 0) * (1 + 0.5)"
    by (simp only: l a) simp
  have f: "findExistingRide detourDb southPole northPole =
     Inr (Some (mkRide 0 0 [northPole, southPole, southPole, northPole] SCHEDULED))"
    by (simp add: detourDb_def run_simps)
  have m: "fst (matchRide detourDb 3 southPole northPole) =
     Inr (Some (mkRide 0 0 [northPole, southPole, southPole, northPole,
                            southPole, northPole] SCHEDULED))"
    by (simp add: detourDb_def run_simps)
  have r: "findExistingRide startedDb northPole northPole = Inr None"
    by (simp add: startedDb_def run_simps)
  from detour_run v c l a b n f m started_run r show ?thesis by blast
qed

section \<open>The capacity gate\<close>

text \<open>
  C3 at a ride whose driver has four seats.  Matching bookings 0 to 3 of \<open>waitingDb\<close> and
  cancelling booking 3 gives \<open>fullDb\<close>: ride 0 holds four attached bookings, three of
  them not cancelled.  The deviation check would admit a request from the north to the
  south pole, but the scan skips the ride, so \<open>matchRide\<close> finds no ride and, no driver
  being idle, returns null and leaves the store as it is.
\<close>

theorem capacity_gate_counts_cancelled_seat:
  "run waitingDb [MatchRequest 0 northPole southPole, MatchRequest 1 southPole northPole,
                  MatchRequest 2 northPole southPole, MatchRequest 3 southPole northPole,
                  CancelRequest (Some 3)] = fullDb \<and>
   findScheduledRides fullDb = [(fullRide, fullRideBookings, Some (mkDriver 0 BUSY))] \<and>
   seats (mkDriver 0 BUSY) = 4 \<and>
   length fullRideBookings = 4 \<and> activeCount fullRideBookings = 3 \<and>
   isPathValid fullRide fullRideBookings northPole southPole \<and>
   findExistingRide fullDb northPole southPole = Inr None \<and>
   matchRide fullDb 4 northPole southPole = (Inr None, fullDb)"
proof -
  have v: "findScheduledRides fullDb = [(fullRide, fullRideBookings, Some (mkDriver 0 BUSY))]"
    by (simp add: findScheduledRides_def fullDb_def fullRide_def fullRideBookings_def
        example_simps)
  have c: "seats (mkDriver 0 BUSY) = 4"
    by (simp add: seats_def mkDriver_def)
  have n: "activeCount fullRideBookings = 3"
    by (simp add: activeCount_def fullRideBookings_def mkBooking_def)
  have l: "length fullRideBookings = 4"
    by (simp add: fullRideBookings_def)
  have p: "isPathValid fullRide fullRideBookings northPole southPole"
    by (simp add: isPathValid_iff fullRide_def fullRideBookings_def example_simps
        sumDirectAll_def directDistance_def pole_distances)
  have f: "findExistingRide fullDb northPole southPole = Inr None"
    by (simp add: findExistingRide_def v c l)
  have a: "findAvailableDrivers fullDb = []"
    by (simp add: findAvailableDrivers_def fullDb_def mkDriver_def)
  have m: "matchRide fullDb 4 northPole southPole = (Inr None, fullDb)"
    by (simp add: matchRide_def f createNewRide_def a)
  from waiting_run v c l n p f m show ?thesis by simp
qed

section \<open>Cancellation\<close>

lemma find_Some_prop: "find P xs = Some x \<Longrightarrow> P x \<and> x \<in> set xs"
  by (induction xs) (auto split: if_splits)

lemma findUniqueBooking_id: "findUniqueBooking s i = Some b \<Longrightarrow> booking_id b = i"
  by (auto simp: findUniqueBooking_def dest: find_Some_prop)

lemma updateBooking_found:
  "findUniqueBooking s i = Some b \<Longrightarrow>
   updateBooking i f s = Inr (s\<lparr>bookings := updateWhere (\<lambda>b. booking_id b = i) f (bookings s)\<rparr>)"
  by (simp add: updateBooking_def)

lemma find_updateWhere_hit:
  "find (\<lambda>x. key x = k) xs = Some x \<Longrightarrow> (\<And>y. key (f y) = key y) \<Longrightarrow>
   find (\<lambda>x. key x = k) (updateWhere (\<lambda>x. key x = k) f xs) = Some (f x)"
  by (induction xs) (auto simp: updateWhere_def split: if_splits)

text \<open>
  C7.  Cancelling a booking that is already CANCELLED is answered with status 400 and
  the error "Booking already cancelled"; cancelling an identifier no booking has is
  answered with status 404 and "Booking not found".  In both cases the store is returned
  as it was.
\<close>

theorem cancel_rejects_cancelled_and_unknown:
  "(findUniqueBooking s i = Some b \<and> booking_status b = CANCELLED \<longrightarrow>
     cancelBooking s (Some i) = (Response 400 (errorBody ''Booking already cancelled''), s)) \<and>
   (i \<notin> booking_id ` set (bookings s) \<longrightarrow>
     cancelBooking s (Some i) = (Response 404 (errorBody ''Booking not found''), s))"
proof (intro conjI impI)
  assume "findUniqueBooking s i = Some b \<and> booking_status b = CANCELLED"
  then show "cancelBooking s (Some i) = (Response 400 (errorBody ''Booking already cancelled''), s)"
    by (simp add: cancelBooking_def)
next
  assume "i \<notin> booking_id ` set (bookings s)"
  then have "findUniqueBooking s i = None"
    by (auto simp: findUniqueBooking_def find_None_iff)
  then show "cancelBooking s (Some i) = (Response 404 (errorBody ''Booking not found''), s)"
    by (simp add: cancelBooking_def)
qed

theorem cancel_rejects_cancelled_and_unknown_witness:
  "findUniqueBooking poolDb 0 = Some (mkBooking 0 northPole southPole CANCELLED (Some 0)) \<and>
   cancelBooking poolDb (Some 0) =
     (Response 400 (errorBody ''Booking already cancelled''), poolDb) \<and>
   7 \<notin> booking_id ` set (bookings poolDb) \<and>
   cancelBooking poolDb (Some 7) = (Response 404 (errorBody ''Booking not found''), poolDb)"
  using cancel_rejects_cancelled_and_unknown
          [of poolDb 0 "mkBooking 0 northPole southPole CANCELLED (Some 0)"]
        cancel_rejects_cancelled_and_unknown [of poolDb 7]
  by (simp add: poolDb_def example_simps)

text \<open>
  C10.  Cancelling a PENDING booking that references no ride succeeds and changes the
  status of that booking to CANCELLED and nothing else: the rides, the drivers and every
  other booking are as before.
\<close>

theorem cancel_pending_frame:
  assumes "findUniqueBooking s i = Some b" "booking_status b = PENDING" "rideId b = None"
  shows "\<exists>s'. cancelBooking s (Some i) = (cancelledOk, s') \<and>
           rides s' = rides s \<and> drivers s' = drivers s \<and>
           bookings s' = map (\<lambda>x. if booking_id x = i then x\<lparr>booking_status := CANCELLED\<rparr>
                                  else x) (bookings s)"
  using assms findUniqueBooking_id[OF assms(1)]
  by (simp add: cancelBooking_def cancelTx_def bookingRide_def updateBooking_found
      updateWhere_def cancelledOk_def)

theorem cancel_pending_frame_witness:
  "findUniqueBooking poolDb 4 = Some (mkBooking 4 northPole southPole PENDING None) \<and>
   (\<exists>s'. cancelBooking poolDb (Some 4) = (cancelledOk, s') \<and>
      rides s' = rides poolDb \<and> drivers s' = drivers poolDb \<and>
      bookings s' = [mkBooking 0 northPole southPole CANCELLED (Some 0),
                     mkBooking 1 southPole northPole CONFIRMED (Some 0),
                     mkBooking 2 northPole southPole CONFIRMED (Some 1),
                     mkBooking 3 southPole northPole CONFIRMED (Some 1),
                     mkBooking 4 northPole southPole CANCELLED None])"
  using cancel_pending_frame [of poolDb 4 "mkBooking 4 northPole southPole PENDING None"]
  by (simp add: poolDb_def example_simps)

text \<open>
  C5.  Cancelling a CONFIRMED booking attached to a ride succeeds and marks the booking
  CANCELLED.  If no other booking of the ride is left that is not cancelled, the ride is
  COMPLETED and its driver AVAILABLE in the store the transaction returns; otherwise
  the rides and the drivers are unchanged, so the ride keeps its status and its path and
  the driver keeps its status.
\<close>

theorem cancel_confirmed_releases_or_keeps:
  assumes b: "findUniqueBooking s i = Some b" and st: "booking_status b = CONFIRMED"
    and rid: "rideId b = Some rid" and ride: "findUniqueRide s rid = Some ride"
    and drv: "findUniqueDriver s (driverId ride) = Some drv"
  shows "\<exists>s'. cancelBooking s (Some i) = (cancelledOk, s') \<and>
      bookings s' = updateWhere (\<lambda>x. booking_id x = i) cancelled (bookings s) \<and>
      (if otherActive s rid i = []
       then rides s' = updateWhere (\<lambda>r. ride_id r = rid)
                         (\<lambda>r. r\<lparr>ride_status := COMPLETED\<rparr>) (rides s) \<and>
            drivers s' = updateWhere (\<lambda>d. driver_id d = driverId ride)
                           (\<lambda>d. d\<lparr>driver_status := AVAILABLE\<rparr>) (drivers s) \<and>
            findUniqueRide s' rid = Some (ride\<lparr>ride_status := COMPLETED\<rparr>) \<and>
            findUniqueDriver s' (driverId ride) = Some (drv\<lparr>driver_status := AVAILABLE\<rparr>)
       else rides s' = rides s \<and> drivers s' = drivers s)"
proof -
  have idb: "booking_id b = i" using b by (rule findUniqueBooking_id)
  have rideid: "ride_id ride = rid"
    using ride by (auto simp: findUniqueRide_def dest: find_Some_prop)
  have br: "bookingRide s b = Some (ride, filter (\<lambda>x. rideId x = Some rid) (bookings s))"
    using rid ride by (simp add: bookingRide_def)
  show ?thesis
  proof (cases "otherActive s rid i = []")
    case True
    have fr: "find (\<lambda>r. ride_id r = rid)
                (updateWhere (\<lambda>r. ride_id r = rid) (\<lambda>r. r\<lparr>ride_status := COMPLETED\<rparr>) (rides s))
              = Some (ride\<lparr>ride_status := COMPLETED\<rparr>)"
      using ride unfolding findUniqueRide_def by (intro find_updateWhere_hit) auto
    have fd: "find (\<lambda>d. driver_id d = driverId ride)
                (updateWhere (\<lambda>d. driver_id d = driverId ride)
                   (\<lambda>d. d\<lparr>driver_status := AVAILABLE\<rparr>) (drivers s))
              = Some (drv\<lparr>driver_status := AVAILABLE\<rparr>)"
      using drv unfolding findUniqueDriver_def by (intro find_updateWhere_hit) auto
    show ?thesis
      using b st ride drv True[unfolded otherActive_def] fr fd
      by (simp add: cancelBooking_def cancelTx_def br idb rideid updateBooking_found
          otherActive_def updateRide_def updateDriver_def findUniqueRide_def
          findUniqueDriver_def cancelled_def[abs_def] cancelledOk_def)
  next
    case False
    then show ?thesis
      using b st
      by (simp add: cancelBooking_def cancelTx_def br idb updateBooking_found otherActive_def
          cancelled_def[abs_def] cancelledOk_def)
  qed
qed

theorem cancel_confirmed_releases_or_keeps_witness:
  "(\<exists>s'. cancelBooking poolDb (Some 1) = (cancelledOk, s') \<and>
      findUniqueBooking s' 1 = Some (mkBooking 1 southPole northPole CANCELLED (Some 0)) \<and>
      findUniqueRide s' 0 =
        Some (mkRide 0 0 [northPole, southPole, southPole, northPole] COMPLETED) \<and>
      findUniqueDriver s' 0 = Some (mkDriver 0 AVAILABLE)) \<and>
   (\<exists>s'. cancelBooking poolDb (Some 2) = (cancelledOk, s') \<and>
      findUniqueBooking s' 2 = Some (mkBooking 2 northPole southPole CANCELLED (Some 1)) \<and>
      rides s' = rides poolDb \<and> drivers s' = drivers poolDb)"
proof
  from cancel_confirmed_releases_or_keeps
         [of poolDb 1 "mkBooking 1 southPole northPole CONFIRMED (Some 0)" 0
             "mkRide 0 0 [northPole, southPole, southPole, northPole] SCHEDULED"
             "mkDriver 0 BUSY"]
  obtain s' where "cancelBooking poolDb (Some 1) = (cancelledOk, s')"
     "bookings s' = updateWhere (\<lambda>x. booking_id x = 1) cancelled (bookings poolDb)"
     "findUniqueRide s' 0 =
        Some (mkRide 0 0 [northPole, southPole, southPole, northPole] COMPLETED)"
     "findUniqueDriver s' 0 = Some (mkDriver 0 AVAILABLE)"
    by (auto simp add: poolDb_def example_simps otherActive_def)
  then show "\<exists>s'. cancelBooking poolDb (Some 1) = (cancelledOk, s') \<and>
      findUniqueBooking s' 1 = Some (mkBooking 1 southPole northPole CANCELLED (Some 0)) \<and>
      findUniqueRide s' 0 =
        Some (mkRide 0 0 [northPole, southPole, southPole, northPole] COMPLETED) \<and>
      findUniqueDriver s' 0 = Some (mkDriver 0 AVAILABLE)"
    by (simp add: poolDb_def example_simps cancelled_def)
next
  from cancel_confirmed_releases_or_keeps
         [of poolDb 2 "mkBooking 2 northPole southPole CONFIRMED (Some 1)" 1
             "mkRide 1 1 [northPole, southPole, southPole, northPole] SCHEDULED"
             "mkDriver 1 BUSY"]
  obtain s' where "cancelBooking poolDb (Some 2) = (cancelledOk, s')"
     "bookings s' = updateWhere (\<lambda>x. booking_id x = 2) cancelled (bookings poolDb)"
     "rides s' = rides poolDb" "drivers s' = drivers poolDb"
    by (auto simp add: poolDb_def example_simps otherActive_def)
  then show "\<exists>s'. cancelBooking poolDb (Some 2) = (cancelledOk, s') \<and>
      findUniqueBooking s' 2 = Some (mkBooking 2 northPole southPole CANCELLED (Some 1)) \<and>
      rides s' = rides poolDb \<and> drivers s' = drivers poolDb"
    by (simp add: poolDb_def example_simps cancelled_def)
qed

section \<open>Validation of the coordinates in createBooking\<close>

lemma truthy_iff: "truthy v \<longleftrightarrow> \<not> absentOrFalsy v"
  by (cases v rule: truthy.cases) (auto simp: absentOrFalsy_def)

lemma createBooking_throws:
  "bodyThrows body \<Longrightarrow> createBooking proceed s body = (failedToCreate, s)"
  by (auto simp: bodyThrows_def createBooking_def failedToCreate_def)

lemma createBooking_rejected:
  "\<not> bodyThrows body \<Longrightarrow> coordinatesRejected body \<Longrightarrow>
   createBooking proceed s body = (invalidCoordinates, s)"
  by (auto simp: bodyThrows_def coordinatesRejected_def createBooking_def Let_def
      invalidCoordinates_def truthy_iff)

lemma createBooking_accepted:
  "\<not> bodyThrows body \<Longrightarrow> \<not> coordinatesRejected body \<Longrightarrow>
   createBooking proceed s body =
     proceed s (getProp body ''userId'') (getProp body ''pickup'') (getProp body ''dropoff'')"
  by (auto simp: bodyThrows_def coordinatesRejected_def createBooking_def Let_def truthy_iff)

lemma getProp_Some_body: "getProp body k = Some v \<Longrightarrow> \<not> bodyThrows body"
  by (cases body) (auto simp: bodyThrows_def)

text \<open>
  C9.  For every body the handler can destructure (every JSON value but null, the body
  being defined), \<open>createBooking\<close> answers with status 400 and "Invalid pickup or dropoff
  coordinates", returning the store as it was, exactly when \<open>pickup\<close>, \<open>dropoff\<close>,
  \<open>pickup.lat\<close> or \<open>dropoff.lat\<close> is absent or falsy; otherwise it goes on with the rest
  of the handler.  So a pickup or a dropoff whose latitude is the number 0 is rejected
  with that answer, and two objects with latitudes that are numbers other than 0 pass
  whatever their other members are: the longitude is not looked at.  An undefined or null
  body never reaches the validation: the destructuring throws and the answer is status
  500 with "Failed to create booking", the store again as it was.
\<close>

theorem createBooking_validation:
  "(bodyThrows body \<longrightarrow> createBooking proceed s body = (failedToCreate, s)) \<and>
   (\<not> bodyThrows body \<and> coordinatesRejected body \<longrightarrow>
      createBooking proceed s body = (invalidCoordinates, s)) \<and>
   (\<not> bodyThrows body \<and> \<not> coordinatesRejected body \<longrightarrow>
      createBooking proceed s body =
        proceed s (getProp body ''userId'') (getProp body ''pickup'') (getProp body ''dropoff'')) \<and>
   (getProp body ''pickup'' = Some (JObj pk) \<and> map_of pk ''lat'' = Some (JNum 0) \<longrightarrow>
      createBooking proceed s body = (invalidCoordinates, s)) \<and>
   (getProp body ''dropoff'' = Some (JObj dp) \<and> map_of dp ''lat'' = Some (JNum 0) \<longrightarrow>
      createBooking proceed s body = (invalidCoordinates, s)) \<and>
   (getProp body ''pickup'' = Some (JObj pk) \<and> map_of pk ''lat'' = Some (JNum a) \<and>
    getProp body ''dropoff'' = Some (JObj dp) \<and> map_of dp ''lat'' = Some (JNum b) \<and>
    a \<noteq> 0 \<and> b \<noteq> 0 \<longrightarrow>
      createBooking proceed s body =
        proceed s (getProp body ''userId'') (getProp body ''pickup'') (getProp body ''dropoff''))"
proof (intro conjI impI)
  assume "bodyThrows body"
  then show "createBooking proceed s body = (failedToCreate, s)"
    by (rule createBooking_throws)
next
  assume "\<not> bodyThrows body \<and> coordinatesRejected body"
  then show "createBooking proceed s body = (invalidCoordinates, s)"
    by (simp add: createBooking_rejected)
next
  assume "\<not> bodyThrows body \<and> \<not> coordinatesRejected body"
  then show "createBooking proceed s body =
      proceed s (getProp body ''userId'') (getProp body ''pickup'') (getProp body ''dropoff'')"
    by (simp add: createBooking_accepted)
next
  assume h: "getProp body ''pickup'' = Some (JObj pk) \<and> map_of pk ''lat'' = Some (JNum 0)"
  then have "\<not> bodyThrows body" by (blast dest: getProp_Some_body)
  moreover from h have "coordinatesRejected body"
    by (simp add: coordinatesRejected_def absentOrFalsy_def)
  ultimately show "createBooking proceed s body = (invalidCoordinates, s)"
    by (rule createBooking_rejected)
next
  assume h: "getProp body ''dropoff'' = Some (JObj dp) \<and> map_of dp ''lat'' = Some (JNum 0)"
  then have "\<not> bodyThrows body" by (blast dest: getProp_Some_body)
  moreover from h have "coordinatesRejected body"
    by (simp add: coordinatesRejected_def absentOrFalsy_def)
  ultimately show "createBooking proceed s body = (invalidCoordinates, s)"
    by (rule createBooking_rejected)
next
  assume h: "getProp body ''pickup'' = Some (JObj pk) \<and> map_of pk ''lat'' = Some (JNum a) \<and>
    getProp body ''dropoff'' = Some (JObj dp) \<and> map_of dp ''lat'' = Some (JNum b) \<and>
    a \<noteq> 0 \<and> b \<noteq> 0"
  then have "\<not> bodyThrows body" by (blast dest: getProp_Some_body)
  moreover from h have "\<not> coordinatesRejected body"
    by (simp add: coordinatesRejected_def absentOrFalsy_def)
  ultimately show "createBooking proceed s body =
      proceed s (getProp body ''userId'') (getProp body ''pickup'') (getProp body ''dropoff'')"
    by (rule createBooking_accepted)
qed

theorem createBooking_validation_witness:
  "createBooking echo emptyDb None = (failedToCreate, emptyDb) \<and>
   createBooking echo emptyDb (Some JNull) = (failedToCreate, emptyDb) \<and>
   coordinatesRejected (Some (JObj [])) \<and>
   createBooking echo emptyDb (Some (JObj [])) = (invalidCoordinates, emptyDb) \<and>
   coordinatesRejected (Some bodyEquator) \<and>
   createBooking echo emptyDb (Some bodyEquator) = (invalidCoordinates, emptyDb) \<and>
   \<not> coordinatesRejected (Some bodyNoLng) \<and>
   createBooking echo emptyDb (Some bodyNoLng) = (Response 201 JNull, emptyDb)"
proof -
  note n = createBooking_validation
      [where body = "None::json option" and proceed = echo and s = emptyDb
         and pk = "[]" and dp = "[]" and a = 1 and b = 1]
  note u = createBooking_validation
      [where body = "Some JNull" and proceed = echo and s = emptyDb
         and pk = "[]" and dp = "[]" and a = 1 and b = 1]
  note e = createBooking_validation
      [where body = "Some (JObj [])" and proceed = echo and s = emptyDb
         and pk = "[]" and dp = "[]" and a = 1 and b = 1]
  note q = createBooking_validation
      [where body = "Some bodyEquator" and proceed = echo and s = emptyDb
         and pk = "[(''lat'', JNum 0), (''lng'', JNum 36)]" and dp = "[]"
         and a = 1 and b = 1]
  note l = createBooking_validation
      [where body = "Some bodyNoLng" and proceed = echo and s = emptyDb
         and pk = "[(''lat'', JNum 10), (''lng'', JStr ''east'')]"
         and dp = "[(''lat'', JNum 11)]" and a = 10 and b = 11]
  have t: "bodyThrows None" "bodyThrows (Some JNull)" "\<not> bodyThrows (Some (JObj []))"
    by (simp_all add: bodyThrows_def)
  have r0: "coordinatesRejected (Some (JObj []))"
    by (simp add: coordinatesRejected_def absentOrFalsy_def)
  have r1: "coordinatesRejected (Some bodyEquator)"
    by (simp add: coordinatesRejected_def absentOrFalsy_def bodyEquator_def)
  have r2: "\<not> coordinatesRejected (Some bodyNoLng)"
    by (simp add: coordinatesRejected_def absentOrFalsy_def bodyNoLng_def)
  have p1: "getProp (Some bodyEquator) ''pickup'' = Some (JObj [(''lat'', JNum 0), (''lng'', JNum 36)])
      \<and> map_of [(''lat'', JNum 0), (''lng'', JNum 36)] ''lat'' = Some (JNum 0)"
    by (simp add: bodyEquator_def)
  have p2: "getProp (Some bodyNoLng) ''pickup'' = Some (JObj [(''lat'', JNum 10), (''lng'', JStr ''east'')]) \<and>
      map_of [(''lat'', JNum 10), (''lng'', JStr ''east'')] ''lat'' = Some (JNum 10) \<and>
      getProp (Some bodyNoLng) ''dropoff'' = Some (JObj [(''lat'', JNum 11)]) \<and>
      map_of [(''lat'', JNum 11)] ''lat'' = Some (JNum 11) \<and> (10::real) \<noteq> 0 \<and> (11::real) \<noteq> 0"
    by (simp add: bodyNoLng_def)
  have a1: "createBooking echo emptyDb None = (failedToCreate, emptyDb)"
    using n t(1) by blast
  have a2: "createBooking echo emptyDb (Some JNull) = (failedToCreate, emptyDb)"
    using u t(2) by blast
  have a3: "createBooking echo emptyDb (Some (JObj [])) = (invalidCoordinates, emptyDb)"
    using e t(3) r0 by blast
  have a4: "createBooking echo emptyDb (Some bodyEquator) = (invalidCoordinates, emptyDb)"
    using q p1 by blast
  have "createBooking echo emptyDb (Some bodyNoLng) =
      echo emptyDb (getProp (Some bodyNoLng) ''userId'') (getProp (Some bodyNoLng) ''pickup'')
        (getProp (Some bodyNoLng) ''dropoff'')"
    using l p2 by blast
  then have a5: "createBooking echo emptyDb (Some bodyNoLng) = (Response 201 JNull, emptyDb)"
    by (simp add: echo_def)
  from a1 a2 a3 a4 a5 r0 r1 r2 show ?thesis by blast
qed

section \<open>The vehicle allocator\<close>

lemma claimDriver_eq:
  "claimDriver i s = (length (filter (claimHit i) (drivers s)),
      s\<lparr>drivers := updateWhere (claimHit i) markBusy (drivers s)\<rparr>)"
  by (simp add: claimDriver_def Let_def claimHit_def[abs_def] markBusy_def[abs_def])

lemma updateWhere_none: "\<forall>x\<in>set xs. \<not> P x \<Longrightarrow> updateWhere P f xs = xs"
  by (induction xs) (auto simp: updateWhere_def)

lemma claimDriver_zero: "fst (claimDriver i s) = 0 \<Longrightarrow> claimDriver i s = (0, s)"
  by (simp add: claimDriver_eq filter_empty_conv updateWhere_none)

lemma claimDriver_pos_iff:
  "0 < fst (claimDriver i s) \<longleftrightarrow> (\<exists>d\<in>set (drivers s). claimHit i d)"
  by (auto simp: claimDriver_eq filter_empty_conv)

lemma claimDriver_again: "fst (claimDriver i (snd (claimDriver i s))) = 0"
  by (auto simp: claimDriver_eq filter_empty_conv updateWhere_def claimHit_def markBusy_def)

lemma claimLoop_skip:
  "\<forall>c\<in>set pre. fst (claimDriver (driver_id c) t) = 0 \<Longrightarrow>
   claimLoop (pre @ rest) t bid p d = claimLoop rest t bid p d"
proof (induction pre)
  case Nil
  show ?case by simp
next
  case (Cons c pre)
  then have "claimDriver (driver_id c) t = (0, t)" by (simp add: claimDriver_zero)
  with Cons show ?case by simp
qed

lemma claimLoop_exhausted:
  "\<forall>c\<in>set cands. fst (claimDriver (driver_id c) t) = 0 \<Longrightarrow>
   claimLoop cands t bid p d = (Inr None, t)"
  using claimLoop_skip[of cands t "[]" bid p d] by simp

lemma claimLoop_stop:
  "0 < fst (claimDriver (driver_id c) t) \<Longrightarrow>
   claimLoop (c # post) t bid p d = claimLoop [c] t bid p d"
  by (cases "claimDriver (driver_id c) t") simp

lemma createRideTx_found:
  "findUniqueBooking t bid = Some b \<Longrightarrow>
   createRideTx t did bid p d =
     Inr (newRide t did p d,
          t\<lparr>rides := rides t @ [newRide t did p d],
            bookings := updateWhere (\<lambda>x. booking_id x = bid)
                          (confirmOn (ride_id (newRide t did p d))) (bookings t)\<rparr>)"
  by (simp add: createRideTx_def createRide_def Let_def newRide_def updateBooking_def
      findUniqueBooking_def)

lemma createRideTx_missing:
  "findUniqueBooking t bid = None \<Longrightarrow> createRideTx t did bid p d = Inl RecordNotFound"
  by (simp add: createRideTx_def createRide_def Let_def updateBooking_def findUniqueBooking_def)

lemma claimLoop_claimed:
  assumes "0 < fst (claimDriver (driver_id c) t)" "findUniqueBooking t bid = Some b"
  shows "claimLoop (c # post) t bid p d =
     (Inr (Some (newRide t (driver_id c) p d)),
      t\<lparr>drivers := updateWhere (claimHit (driver_id c)) markBusy (drivers t),
        rides := rides t @ [newRide t (driver_id c) p d],
        bookings := updateWhere (\<lambda>x. booking_id x = bid)
                      (confirmOn (ride_id (newRide t (driver_id c) p d))) (bookings t)\<rparr>)"
proof -
  let ?t1 = "t\<lparr>drivers := updateWhere (claimHit (driver_id c)) markBusy (drivers t)\<rparr>"
  have cl: "claimDriver (driver_id c) t =
      (length (filter (claimHit (driver_id c)) (drivers t)), ?t1)"
    by (rule claimDriver_eq)
  have pos: "0 < length (filter (claimHit (driver_id c)) (drivers t))"
    using assms(1) by (simp add: cl)
  have fb: "findUniqueBooking ?t1 bid = Some b"
    using assms(2) by (simp add: findUniqueBooking_def)
  have nr: "newRide ?t1 (driver_id c) p d = newRide t (driver_id c) p d"
    by (simp add: newRide_def)
  show ?thesis
    using pos by (simp add: cl createRideTx_found[OF fb] nr)
qed

text \<open>
  C8.  \<open>createNewRide\<close> reads at most five drivers, all AVAILABLE in the store it reads,
  and runs the claim loop over them.  The loop, against the store \<open>t\<close> at the time of the
  claims: if the claim of every candidate reports 0 rows (also when there is no
  candidate), it returns null and \<open>t\<close> unchanged, so the booking keeps its status; if the
  claims of the candidates \<open>pre\<close> report 0 and the claim of \<open>c\<close> reports a change, the
  candidates after \<open>c\<close> play no part, and for an existing booking the ride returned
  references \<open>c\<close> and the only change to the drivers is the claim of \<open>c\<close>.
\<close>

theorem allocator_first_successful_claim:
  "length (findAvailableDrivers s) \<le> 5 \<and>
   (\<forall>c\<in>set (findAvailableDrivers s). c \<in> set (drivers s) \<and> driver_status c = AVAILABLE) \<and>
   createNewRide s bid p d = claimLoop (findAvailableDrivers s) s bid p d \<and>
   ((\<forall>c\<in>set cands. fst (claimDriver (driver_id c) t) = 0) \<longrightarrow>
      claimLoop cands t bid p d = (Inr None, t)) \<and>
   ((\<forall>c\<in>set pre. fst (claimDriver (driver_id c) t) = 0) \<and>
    0 < fst (claimDriver (driver_id c) t) \<longrightarrow>
      claimLoop (pre @ c # post) t bid p d = claimLoop [c] t bid p d \<and>
      (\<forall>b. findUniqueBooking t bid = Some b \<longrightarrow>
         (\<exists>ride t'. claimLoop (pre @ c # post) t bid p d = (Inr (Some ride), t') \<and>
            driverId ride = driver_id c \<and>
            drivers t' = updateWhere (claimHit (driver_id c)) markBusy (drivers t))))"
proof (intro conjI impI allI)
  show "length (findAvailableDrivers s) \<le> 5" by (simp add: findAvailableDrivers_def)
  show "\<forall>c\<in>set (findAvailableDrivers s). c \<in> set (drivers s) \<and> driver_status c = AVAILABLE"
    by (auto simp: findAvailableDrivers_def dest!: in_set_takeD)
  show "createNewRide s bid p d = claimLoop (findAvailableDrivers s) s bid p d"
    by (simp add: createNewRide_def)
next
  assume "\<forall>c\<in>set cands. fst (claimDriver (driver_id c) t) = 0"
  then show "claimLoop cands t bid p d = (Inr None, t)" by (rule claimLoop_exhausted)
next
  assume h: "(\<forall>c\<in>set pre. fst (claimDriver (driver_id c) t) = 0) \<and>
             0 < fst (claimDriver (driver_id c) t)"
  then have "claimLoop (pre @ c # post) t bid p d = claimLoop (c # post) t bid p d"
    by (intro claimLoop_skip) blast
  also have "\<dots> = claimLoop [c] t bid p d"
    using h by (intro claimLoop_stop) blast
  finally show "claimLoop (pre @ c # post) t bid p d = claimLoop [c] t bid p d" .
next
  fix b
  assume h: "(\<forall>c\<in>set pre. fst (claimDriver (driver_id c) t) = 0) \<and>
             0 < fst (claimDriver (driver_id c) t)"
    and b: "findUniqueBooking t bid = Some b"
  have "claimLoop (pre @ c # post) t bid p d = claimLoop (c # post) t bid p d"
    using h by (intro claimLoop_skip) blast
  then show "\<exists>ride t'. claimLoop (pre @ c # post) t bid p d = (Inr (Some ride), t') \<and>
            driverId ride = driver_id c \<and>
            drivers t' = updateWhere (claimHit (driver_id c)) markBusy (drivers t)"
    using h b by (simp add: claimLoop_claimed newRide_def del: claimLoop.simps)
qed

theorem allocator_first_successful_claim_witness:
  "findAvailableDrivers poolDb = [mkDriver 2 AVAILABLE] \<and>
   claimLoop [mkDriver 0 AVAILABLE, mkDriver 1 AVAILABLE] poolDb 4 northPole southPole
     = (Inr None, poolDb) \<and>
   (\<exists>ride t'. claimLoop [mkDriver 0 AVAILABLE, mkDriver 2 AVAILABLE, mkDriver 1 AVAILABLE]
                 poolDb 4 northPole southPole = (Inr (Some ride), t') \<and>
       driverId ride = 2 \<and>
       drivers t' = [mkDriver 0 BUSY, mkDriver 1 BUSY, mkDriver 2 BUSY])"
proof -
  have z0: "fst (claimDriver 0 poolDb) = 0" and z1: "fst (claimDriver 1 poolDb) = 0"
    and p2: "0 < fst (claimDriver 2 poolDb)"
    by (simp_all add: claimDriver_def poolDb_def example_simps)
  have b: "findUniqueBooking poolDb 4 = Some (mkBooking 4 northPole southPole PENDING None)"
    by (simp add: poolDb_def example_simps)
  note w = allocator_first_successful_claim
        [where s = poolDb and cands = "[mkDriver 0 AVAILABLE, mkDriver 1 AVAILABLE]"
           and t = poolDb and bid = 4 and p = northPole and d = southPole
           and pre = "[mkDriver 0 AVAILABLE]" and c = "mkDriver 2 AVAILABLE"
           and post = "[mkDriver 1 AVAILABLE]"]
  have a: "findAvailableDrivers poolDb = [mkDriver 2 AVAILABLE]"
    by (simp add: findAvailableDrivers_def poolDb_def example_simps)
  have ex: "\<forall>c\<in>set [mkDriver 0 AVAILABLE, mkDriver 1 AVAILABLE].
      fst (claimDriver (driver_id c) poolDb) = 0"
    using z0 z1 by (simp add: mkDriver_def)
  have e: "claimLoop [mkDriver 0 AVAILABLE, mkDriver 1 AVAILABLE] poolDb 4 northPole southPole
     = (Inr None, poolDb)"
    using w ex by blast
  have hit: "(\<forall>c\<in>set [mkDriver 0 AVAILABLE]. fst (claimDriver (driver_id c) poolDb) = 0) \<and>
      0 < fst (claimDriver (driver_id (mkDriver 2 AVAILABLE)) poolDb)"
    using z0 p2 by (simp add: mkDriver_def)
  have "\<exists>ride t'. claimLoop ([mkDriver 0 AVAILABLE] @ mkDriver 2 AVAILABLE # [mkDriver 1 AVAILABLE])
                 poolDb 4 northPole southPole = (Inr (Some ride), t') \<and>
       driverId ride = driver_id (mkDriver 2 AVAILABLE) \<and>
       drivers t' = updateWhere (claimHit (driver_id (mkDriver 2 AVAILABLE))) markBusy
                      (drivers poolDb)"
    using w hit b by blast
  then have c: "\<exists>ride t'.
       claimLoop [mkDriver 0 AVAILABLE, mkDriver 2 AVAILABLE, mkDriver 1 AVAILABLE]
                 poolDb 4 northPole southPole = (Inr (Some ride), t') \<and>
       driverId ride = 2 \<and>
       drivers t' = [mkDriver 0 BUSY, mkDriver 1 BUSY, mkDriver 2 BUSY]"
    by (simp add: poolDb_def example_simps claimHit_def markBusy_def del: claimLoop.simps)
  from a e c show ?thesis by blast
qed

section \<open>Opening a new ride\<close>

lemma fold_max_ge: "n \<le> fold (\<lambda>r n. max n (Suc (ride_id r))) rs n"
proof (induction rs arbitrary: n)
  case Nil
  show ?case by simp
next
  case (Cons r rs)
  have "n \<le> max n (Suc (ride_id r))" by simp
  also have "\<dots> \<le> fold (\<lambda>r n. max n (Suc (ride_id r))) rs (max n (Suc (ride_id r)))"
    by (rule Cons.IH)
  finally show ?case by simp
qed

lemma fold_max_gt:
  "r \<in> set rs \<Longrightarrow> ride_id r < fold (\<lambda>r n. max n (Suc (ride_id r))) rs n"
proof (induction rs arbitrary: n)
  case Nil
  then show ?case by simp
next
  case (Cons x rs)
  show ?case
  proof (cases "r = x")
    case True
    have "ride_id x < max n (Suc (ride_id x))" by simp
    also have "\<dots> \<le> fold (\<lambda>r n. max n (Suc (ride_id r))) rs (max n (Suc (ride_id x)))"
      by (rule fold_max_ge)
    finally show ?thesis using True by simp
  next
    case False
    with Cons.prems have "r \<in> set rs" by simp
    then show ?thesis using Cons.IH by simp
  qed
qed

lemma freshRideId_fresh: "freshRideId rs \<notin> ride_id ` set rs"
  using fold_max_gt[of _ rs 0] by (fastforce simp: freshRideId_def)

lemma findAvailableDrivers_claimable:
  "c \<in> set (findAvailableDrivers s) \<Longrightarrow> 0 < fst (claimDriver (driver_id c) s)"
  by (auto simp: findAvailableDrivers_def claimDriver_pos_iff claimHit_def dest!: in_set_takeD)

lemma find_hit_exists: "\<exists>x\<in>set xs. P x \<Longrightarrow> \<exists>y. find P xs = Some y"
  by (cases "find P xs") (auto simp: find_None_iff)

lemma claimLoop_compensated:
  assumes "0 < fst (claimDriver (driver_id c) t)" "findUniqueBooking t bid = None"
  shows "\<exists>t'. claimLoop (c # post) t bid p d = (Inr None, t') \<and>
               rides t' = rides t \<and> bookings t' = bookings t"
proof -
  let ?t1 = "t\<lparr>drivers := updateWhere (claimHit (driver_id c)) markBusy (drivers t)\<rparr>"
  have cl: "claimDriver (driver_id c) t =
      (length (filter (claimHit (driver_id c)) (drivers t)), ?t1)"
    by (rule claimDriver_eq)
  have pos: "0 < length (filter (claimHit (driver_id c)) (drivers t))"
    using assms(1) by (simp add: cl)
  obtain x where x: "x \<in> set (drivers t)" "claimHit (driver_id c) x"
    using assms(1) by (auto simp: claimDriver_pos_iff)
  have "markBusy x \<in> set (drivers ?t1)"
    using x by (force simp: updateWhere_def)
  moreover have "driver_id (markBusy x) = driver_id c"
    using x by (simp add: claimHit_def markBusy_def)
  ultimately have "\<exists>y\<in>set (drivers ?t1). driver_id y = driver_id c"
    by blast
  then have "\<exists>y. find (\<lambda>v. driver_id v = driver_id c) (drivers ?t1) = Some y"
    by (rule find_hit_exists)
  then obtain y where y: "findUniqueDriver ?t1 (driver_id c) = Some y"
    unfolding findUniqueDriver_def by blast
  have fb: "findUniqueBooking ?t1 bid = None"
    using assms(2) by (simp add: findUniqueBooking_def)
  show ?thesis
    using pos y by (simp add: cl createRideTx_missing[OF fb] updateDriver_def)
qed

text \<open>
  C6.  When the match scan finds no ride and a candidate driver was read (its claim then
  succeeds), \<open>matchRide\<close> for an existing booking returns a new ride and a store in which
  exactly this ride has been appended: SCHEDULED, with path [pickup, dropoff], referencing
  the first candidate, under an identifier no ride had; the booking is CONFIRMED and
  references the ride, and the candidate has been claimed.  The two writes of the
  transaction are all or nothing: for any booking identifier, either the ride is appended
  and the booking confirmed on it, or rides and bookings are both as before.
\<close>

theorem new_ride_created_and_confirmed:
  assumes scan: "findExistingRide s p d = Inr None"
    and cand: "findAvailableDrivers s = c # cs"
    and book: "findUniqueBooking s bid = Some b"
  shows "(\<exists>ride s'. matchRide s bid p d = (Inr (Some ride), s') \<and>
      ride_status ride = SCHEDULED \<and> path ride = [p, d] \<and> driverId ride = driver_id c \<and>
      ride_id ride \<notin> ride_id ` set (rides s) \<and>
      rides s' = rides s @ [ride] \<and>
      bookings s' = updateWhere (\<lambda>x. booking_id x = bid) (confirmOn (ride_id ride))
                      (bookings s) \<and>
      findUniqueBooking s' bid =
        Some (b\<lparr>rideId := Some (ride_id ride), booking_status := CONFIRMED\<rparr>) \<and>
      drivers s' = updateWhere (claimHit (driver_id c)) markBusy (drivers s)) \<and>
    (\<forall>bid'. \<exists>s''. snd (matchRide s bid' p d) = s'' \<and>
      ((rides s'' = rides s \<and> bookings s'' = bookings s) \<or>
       (\<exists>r. rides s'' = rides s @ [r] \<and>
            bookings s'' = updateWhere (\<lambda>x. booking_id x = bid') (confirmOn (ride_id r))
                             (bookings s))))"
proof -
  have pos: "0 < fst (claimDriver (driver_id c) s)"
    using cand by (intro findAvailableDrivers_claimable) simp
  have m: "\<And>k. matchRide s k p d = claimLoop (c # cs) s k p d"
    by (simp add: matchRide_def scan createNewRide_def cand del: claimLoop.simps)
  have fb: "find (\<lambda>x. booking_id x = bid)
              (updateWhere (\<lambda>x. booking_id x = bid)
                 (confirmOn (ride_id (newRide s (driver_id c) p d))) (bookings s))
            = Some (confirmOn (ride_id (newRide s (driver_id c) p d)) b)"
    using book unfolding findUniqueBooking_def
    by (intro find_updateWhere_hit) (auto simp: confirmOn_def)
  have created: "\<exists>ride s'. matchRide s bid p d = (Inr (Some ride), s') \<and>
      ride_status ride = SCHEDULED \<and> path ride = [p, d] \<and> driverId ride = driver_id c \<and>
      ride_id ride \<notin> ride_id ` set (rides s) \<and>
      rides s' = rides s @ [ride] \<and>
      bookings s' = updateWhere (\<lambda>x. booking_id x = bid) (confirmOn (ride_id ride))
                      (bookings s) \<and>
      findUniqueBooking s' bid =
        Some (b\<lparr>rideId := Some (ride_id ride), booking_status := CONFIRMED\<rparr>) \<and>
      drivers s' = updateWhere (claimHit (driver_id c)) markBusy (drivers s)"
    using fb freshRideId_fresh[of "rides s"]
    by (simp add: m claimLoop_claimed[OF pos book] findUniqueBooking_def confirmOn_def
        newRide_def del: claimLoop.simps)
  have atomic: "\<exists>s''. snd (matchRide s bid' p d) = s'' \<and>
      ((rides s'' = rides s \<and> bookings s'' = bookings s) \<or>
       (\<exists>r. rides s'' = rides s @ [r] \<and>
            bookings s'' = updateWhere (\<lambda>x. booking_id x = bid') (confirmOn (ride_id r))
                             (bookings s)))" for bid'
  proof (cases "findUniqueBooking s bid'")
    case None
    from claimLoop_compensated[OF pos None, of cs p d]
    show ?thesis by (auto simp: m simp del: claimLoop.simps)
  next
    case (Some b')
    show ?thesis
      by (simp add: m claimLoop_claimed[OF pos Some] del: claimLoop.simps)
  qed
  from created atomic show ?thesis by blast
qed

theorem new_ride_created_and_confirmed_witness:
  "findExistingRide idleDb southPole northPole = Inr None \<and>
   findAvailableDrivers idleDb = [mkDriver 0 AVAILABLE, mkDriver 1 AVAILABLE] \<and>
   findUniqueBooking idleDb 1 = Some (mkBooking 1 southPole northPole PENDING None) \<and>
   (\<exists>ride s'. matchRide idleDb 1 southPole northPole = (Inr (Some ride), s') \<and>
      ride_status ride = SCHEDULED \<and> path ride = [southPole, northPole] \<and>
      driverId ride = 0 \<and> ride_id ride \<noteq> 0 \<and>
      rides s' = [mkRide 0 0 [northPole, southPole] COMPLETED, ride] \<and>
      bookings s' = [mkBooking 0 northPole southPole CANCELLED (Some 0),
                     mkBooking 1 southPole northPole CONFIRMED (Some (ride_id ride))] \<and>
      drivers s' = [mkDriver 0 BUSY, mkDriver 1 AVAILABLE])"
proof -
  have scan: "findExistingRide idleDb southPole northPole = Inr None"
    by (simp add: findExistingRide_def findScheduledRides_def idleDb_def mkRide_def)
  have cand: "findAvailableDrivers idleDb = mkDriver 0 AVAILABLE # [mkDriver 1 AVAILABLE]"
    by (simp add: findAvailableDrivers_def idleDb_def mkDriver_def)
  have book: "findUniqueBooking idleDb 1 = Some (mkBooking 1 southPole northPole PENDING None)"
    by (simp add: idleDb_def example_simps)
  from new_ride_created_and_confirmed[OF scan cand book]
  obtain ride s' where r: "matchRide idleDb 1 southPole northPole = (Inr (Some ride), s')"
      "ride_status ride = SCHEDULED" "path ride = [southPole, northPole]"
      "driverId ride = driver_id (mkDriver 0 AVAILABLE)"
      "ride_id ride \<notin> ride_id ` set (rides idleDb)"
      "rides s' = rides idleDb @ [ride]"
      "bookings s' = updateWhere (\<lambda>x. booking_id x = 1) (confirmOn (ride_id ride))
                      (bookings idleDb)"
      "drivers s' = updateWhere (claimHit (driver_id (mkDriver 0 AVAILABLE))) markBusy
                      (drivers idleDb)"
    by blast
  have "ride_status ride = SCHEDULED \<and> path ride = [southPole, northPole] \<and>
      driverId ride = 0 \<and> ride_id ride \<noteq> 0 \<and>
      rides s' = [mkRide 0 0 [northPole, southPole] COMPLETED, ride] \<and>
      bookings s' = [mkBooking 0 northPole southPole CANCELLED (Some 0),
                     mkBooking 1 southPole northPole CONFIRMED (Some (ride_id ride))] \<and>
      drivers s' = [mkDriver 0 BUSY, mkDriver 1 AVAILABLE]"
    using r(2-8)
    by (simp add: idleDb_def example_simps confirmOn_def claimHit_def markBusy_def)
  with r(1) scan cand book show ?thesis by auto
qed

section \<open>Exclusive claim\<close>

lemma claimAttempts_after_miss:
  "fst (claimDriver i s) = 0 \<Longrightarrow>
   claimAttempts i callers s = (map (\<lambda>c. (c, 0)) callers, s)"
proof (induction callers)
  case Nil
  show ?case by simp
next
  case (Cons a as)
  then have "claimDriver i s = (0, s)" by (simp add: claimDriver_zero)
  with Cons show ?case by simp
qed

lemma claimAttempts_first:
  "claimAttempts i (first # others) s =
     ((first, fst (claimDriver i s)) # map (\<lambda>c. (c, 0)) others, snd (claimDriver i s))"
proof -
  obtain n s1 where c: "claimDriver i s = (n, s1)" by (cases "claimDriver i s")
  have "fst (claimDriver i s1) = 0"
    using claimDriver_again[of i s] by (simp add: c)
  then have "claimAttempts i others s1 = (map (\<lambda>c. (c, 0)) others, s1)"
    by (rule claimAttempts_after_miss)
  then show ?thesis by (simp add: c)
qed

lemma claimAttempts_callers: "map fst (fst (claimAttempts i callers s)) = callers"
proof (cases callers)
  case Nil
  then show ?thesis by simp
next
  case (Cons a as)
  then show ?thesis
    by (simp add: claimAttempts_first comp_def del: claimAttempts.simps)
qed

lemma claimDriver_busy:
  assumes "v \<in> set (drivers (snd (claimDriver i s)))" "driver_id v = i"
  shows "driver_status v = BUSY"
proof -
  from assms(1) obtain x where x: "x \<in> set (drivers s)"
      and v: "v = (if claimHit i x then markBusy x else x)"
    by (auto simp: claimDriver_eq updateWhere_def)
  show ?thesis
  proof (cases "claimHit i x")
    case True
    with v show ?thesis by (simp add: markBusy_def)
  next
    case False
    with v have vx: "v = x" by simp
    with assms(2) False have "driver_status x \<noteq> AVAILABLE" by (simp add: claimHit_def)
    then have "driver_status x = BUSY" by (cases "driver_status x") simp_all
    with vx show ?thesis by simp
  qed
qed

lemma successes_losers: "successes (map (\<lambda>c. (c, 0)) callers) = []"
  by (simp add: successes_def filter_empty_conv)

text \<open>
  C4.  Whatever the number of callers and the order in which the store runs their
  conditional updates on driver \<open>i\<close>, at most one of them is reported a changed row.
  When the driver is AVAILABLE at the start, it is the caller the store serves first, and
  no other: every other caller is reported 0 rows, and the store after all the attempts
  is the store after that single claim.  A conditional update that reports 0 rows leaves
  the store as it was.
\<close>

theorem claim_exclusive:
  "length (successes (fst (claimAttempts i (callers :: 'c list) s))) \<le> 1 \<and>
   map fst (fst (claimAttempts i callers s)) = callers \<and>
   ((\<exists>v\<in>set (drivers s). driver_id v = i \<and> driver_status v = AVAILABLE) \<longrightarrow>
      claimAttempts i ((first :: 'c) # others) s =
        ((first, fst (claimDriver i s)) # map (\<lambda>c. (c, 0)) others, snd (claimDriver i s)) \<and>
      successes (fst (claimAttempts i (first # others) s)) = [first] \<and>
      (\<forall>v\<in>set (drivers (snd (claimAttempts i (first # others) s))).
          driver_id v = i \<longrightarrow> driver_status v = BUSY)) \<and>
   (fst (claimDriver i t) = 0 \<longrightarrow> snd (claimDriver i t) = t)"
proof (intro conjI impI)
  show "length (successes (fst (claimAttempts i callers s))) \<le> 1"
  proof (cases callers)
    case Nil
    then show ?thesis by (simp add: successes_def)
  next
    case (Cons a as)
    have "successes (fst (claimAttempts i (a # as) s)) =
          (if 0 < fst (claimDriver i s) then [a] else [])"
      using successes_losers[of as]
      by (simp add: claimAttempts_first del: claimAttempts.simps) (simp add: successes_def)
    with Cons show ?thesis by simp
  qed
  show "map fst (fst (claimAttempts i callers s)) = callers"
    by (rule claimAttempts_callers)
  show "claimAttempts i (first # others) s =
        ((first, fst (claimDriver i s)) # map (\<lambda>c. (c, 0)) others, snd (claimDriver i s))"
    by (rule claimAttempts_first)
next
  assume a: "\<exists>v\<in>set (drivers s). driver_id v = i \<and> driver_status v = AVAILABLE"
  then have pos: "0 < fst (claimDriver i s)"
    by (simp add: claimDriver_pos_iff claimHit_def)
  show "successes (fst (claimAttempts i (first # others) s)) = [first]"
    using pos successes_losers[of others]
    by (simp add: claimAttempts_first del: claimAttempts.simps) (simp add: successes_def)
  show "\<forall>v\<in>set (drivers (snd (claimAttempts i (first # others) s))).
          driver_id v = i \<longrightarrow> driver_status v = BUSY"
    by (simp add: claimAttempts_first claimDriver_busy del: claimAttempts.simps)
next
  assume "fst (claimDriver i t) = 0"
  then show "snd (claimDriver i t) = t" by (simp add: claimDriver_zero)
qed

theorem claim_exclusive_witness:
  "(\<exists>v\<in>set (drivers poolDb). driver_id v = 2 \<and> driver_status v = AVAILABLE) \<and>
   claimAttempts 2 [''a'', ''b'', ''c''] poolDb =
     ([(''a'', 1), (''b'', 0), (''c'', 0)],
      poolDb\<lparr>drivers := [mkDriver 0 BUSY, mkDriver 1 BUSY, mkDriver 2 BUSY]\<rparr>) \<and>
   successes (fst (claimAttempts 2 [''a'', ''b'', ''c''] poolDb)) = [''a''] \<and>
   fst (claimDriver 0 poolDb) = 0 \<and> snd (claimDriver 0 poolDb) = poolDb"
proof -
  have a: "\<exists>v\<in>set (drivers poolDb). driver_id v = 2 \<and> driver_status v = AVAILABLE"
    by (simp add: poolDb_def mkDriver_def)
  have c: "claimDriver 2 poolDb =
     (1, poolDb\<lparr>drivers := [mkDriver 0 BUSY, mkDriver 1 BUSY, mkDriver 2 BUSY]\<rparr>)"
    by (simp add: claimDriver_def poolDb_def example_simps)
  have z: "fst (claimDriver 0 poolDb) = 0"
    by (simp add: claimDriver_def poolDb_def example_simps)
  note w = claim_exclusive[where i = 2 and s = poolDb and first = "''a''"
      and others = "[''b'', ''c'']" and callers = "[''a'', ''b'', ''c'']"]
  note w0 = claim_exclusive[where i = 0 and t = poolDb and s = poolDb
      and first = "''a''" and others = "[]" and callers = "[]::string list"]
  have r: "claimAttempts 2 [''a'', ''b'', ''c''] poolDb =
     ([(''a'', 1), (''b'', 0), (''c'', 0)],
      poolDb\<lparr>drivers := [mkDriver 0 BUSY, mkDriver 1 BUSY, mkDriver 2 BUSY]\<rparr>)"
    using w a by (simp add: c del: claimAttempts.simps)
  have su: "successes (fst (claimAttempts 2 [''a'', ''b'', ''c''] poolDb)) = [''a'']"
    using w a by blast
  have u: "snd (claimDriver 0 poolDb) = poolDb"
    using w0 z by blast
  from a r su z u show ?thesis by blast
qed

section \<open>Busy drivers and open rides\<close>

lemma updateWhere_map_proj:
  "(\<And>x. g (f x) = g x) \<Longrightarrow> map g (updateWhere P f xs) = map g xs"
  by (induction xs) (auto simp: updateWhere_def)

lemma updateWhere_filter_proj:
  "(\<And>x. g (f x) = g x) \<Longrightarrow> (\<And>x. Q (f x) = Q x) \<Longrightarrow>
   map g (filter Q (updateWhere P f xs)) = map g (filter Q xs)"
  by (induction xs) (auto simp: updateWhere_def)

lemma length_updateWhere: "length (updateWhere P f xs) = length xs"
  by (simp add: updateWhere_def)

lemma set_updateWhere:
  "y \<in> set (updateWhere P f xs) \<longleftrightarrow> (\<exists>x\<in>set xs. y = (if P x then f x else x))"
  by (auto simp: updateWhere_def)

lemma closeRide_drops:
  "map driverId (filter (\<lambda>r. ride_status r = SCHEDULED)
      (updateWhere (\<lambda>r. ride_id r = rid) closeRide rs))
   = map driverId (filter (\<lambda>r. ride_status r = SCHEDULED \<and> ride_id r \<noteq> rid) rs)"
  by (induction rs) (auto simp: updateWhere_def closeRide_def)

lemma release_drops:
  "map driver_id (filter (\<lambda>v. driver_status v = BUSY)
      (updateWhere (\<lambda>v. driver_id v = i) release vs))
   = map driver_id (filter (\<lambda>v. driver_status v = BUSY \<and> driver_id v \<noteq> i) vs)"
  by (induction vs) (auto simp: updateWhere_def release_def)

lemma claim_adds:
  "\<exists>v\<in>set vs. claimHit i v \<Longrightarrow>
   set (map driver_id (filter (\<lambda>v. driver_status v = BUSY) (updateWhere (claimHit i) markBusy vs)))
   = insert i (set (map driver_id (filter (\<lambda>v. driver_status v = BUSY) vs)))"
  by (induction vs) (auto simp: updateWhere_def claimHit_def markBusy_def)

lemma claim_target_not_busy:
  assumes "distinct (map driver_id vs)" "v \<in> set vs" "claimHit i v"
  shows "i \<notin> set (map driver_id (filter (\<lambda>v. driver_status v = BUSY) vs))"
proof
  assume "i \<in> set (map driver_id (filter (\<lambda>v. driver_status v = BUSY) vs))"
  then obtain w where w: "w \<in> set vs" "driver_status w = BUSY" "driver_id w = i"
    by auto
  from assms(3) have "driver_id v = i" "driver_status v = AVAILABLE"
    by (simp_all add: claimHit_def)
  with w assms(1,2) have "v = w"
    by (simp add: distinct_map inj_on_def)
  with w \<open>driver_status v = AVAILABLE\<close> show False by simp
qed

lemma compensate_restores:
  assumes "distinct (map driver_id vs)" "\<exists>v\<in>set vs. claimHit i v"
  shows "updateWhere (\<lambda>v. driver_id v = i) release (updateWhere (claimHit i) markBusy vs) = vs"
proof -
  from assms(2) obtain v where v: "v \<in> set vs" "claimHit i v" by blast
  have "(if driver_id (if claimHit i x then markBusy x else x) = i
         then release (if claimHit i x then markBusy x else x)
         else (if claimHit i x then markBusy x else x)) = x" if x: "x \<in> set vs" for x
  proof (cases "driver_id x = i")
    case True
    with v assms(1) x have "x = v"
      by (simp add: distinct_map inj_on_def claimHit_def)
    with v show ?thesis
      by (simp add: claimHit_def markBusy_def release_def)
  next
    case False
    then show ?thesis by (simp add: claimHit_def)
  qed
  then show ?thesis
    by (simp add: updateWhere_def map_idI comp_def)
qed

lemma release_fold: "(\<lambda>v. v\<lparr>driver_status := AVAILABLE\<rparr>) = release"
  by (simp add: fun_eq_iff release_def)

lemma closeRide_fold: "(\<lambda>r. r\<lparr>ride_status := COMPLETED\<rparr>) = closeRide"
  by (simp add: fun_eq_iff closeRide_def)

lemma cancelled_fold: "(\<lambda>b. b\<lparr>booking_status := CANCELLED\<rparr>) = cancelled"
  by (simp add: fun_eq_iff cancelled_def)

text \<open>What \<open>claimLoop\<close> can do to a store with unique driver identifiers.\<close>

lemma claimLoop_cases:
  assumes "distinct (map driver_id (drivers t))"
  shows "snd (claimLoop cands t bid p d) = t \<or>
     (\<exists>i. (\<exists>v\<in>set (drivers t). claimHit i v) \<and>
        snd (claimLoop cands t bid p d) =
          t\<lparr>drivers := updateWhere (claimHit i) markBusy (drivers t),
            rides := rides t @ [newRide t i p d],
            bookings := updateWhere (\<lambda>x. booking_id x = bid)
                          (confirmOn (ride_id (newRide t i p d))) (bookings t)\<rparr>)"
proof (induction cands)
  case Nil
  show ?case by simp
next
  case (Cons c cs)
  show ?case
  proof (cases "0 < fst (claimDriver (driver_id c) t)")
    case False
    then have "claimDriver (driver_id c) t = (0, t)" by (simp add: claimDriver_zero)
    then have "claimLoop (c # cs) t bid p d = claimLoop cs t bid p d" by simp
    with Cons show ?thesis by (simp del: claimLoop.simps)
  next
    case True
    then have hit: "\<exists>v\<in>set (drivers t). claimHit (driver_id c) v"
      by (simp add: claimDriver_pos_iff)
    show ?thesis
    proof (cases "findUniqueBooking t bid")
      case (Some b)
      from claimLoop_claimed[OF True Some] hit show ?thesis
        by (auto simp del: claimLoop.simps)
    next
      case None
      let ?t1 = "t\<lparr>drivers := updateWhere (claimHit (driver_id c)) markBusy (drivers t)\<rparr>"
      have cl: "claimDriver (driver_id c) t =
          (length (filter (claimHit (driver_id c)) (drivers t)), ?t1)"
        by (rule claimDriver_eq)
      have pos: "0 < length (filter (claimHit (driver_id c)) (drivers t))"
        using True by (simp add: cl)
      have fb: "findUniqueBooking ?t1 bid = None"
        using None by (simp add: findUniqueBooking_def)
      have undo: "updateWhere (\<lambda>v. driver_id v = driver_id c) release (drivers ?t1) = drivers t"
        using compensate_restores[OF assms hit] by simp
      obtain x where x: "x \<in> set (drivers t)" "claimHit (driver_id c) x"
        using hit by blast
      have "markBusy x \<in> set (drivers ?t1)"
        using x by (force simp: updateWhere_def)
      moreover have "driver_id (markBusy x) = driver_id c"
        using x by (simp add: claimHit_def markBusy_def)
      ultimately have "\<exists>y\<in>set (drivers ?t1). driver_id y = driver_id c"
        by blast
      then have "\<exists>y. find (\<lambda>v. driver_id v = driver_id c) (drivers ?t1) = Some y"
        by (rule find_hit_exists)
      then obtain y where y: "findUniqueDriver ?t1 (driver_id c) = Some y"
        unfolding findUniqueDriver_def by blast
      have "snd (claimLoop (c # cs) t bid p d) = t"
        using pos undo y
        by (simp add: cl createRideTx_missing[OF fb] updateDriver_def release_fold)
      then show ?thesis by simp
    qed
  qed
qed

lemma scanRides_Some:
  "scanRides views p d = Inr (Some r) \<Longrightarrow> r \<in> fst ` set views"
proof (induction views p d rule: scanRides.induct)
  case (1 p d)
  then show ?case by simp
next
  case (2 ride bs rest p d)
  then show ?case by simp
next
  case (3 ride bs v rest p d)
  then show ?case by (auto split: if_splits)
qed

lemma findExistingRide_Some:
  assumes "findExistingRide s p d = Inr (Some r)"
  shows "r \<in> set (rides s) \<and> ride_status r = SCHEDULED"
proof -
  from assms have "r \<in> fst ` set (findScheduledRides s)"
    unfolding findExistingRide_def by (rule scanRides_Some)
  then show ?thesis by (auto simp: findScheduledRides_def)
qed

lemma find_in_set: "x \<in> set xs \<Longrightarrow> \<exists>y. find (\<lambda>z. key z = key x) xs = Some y"
  by (rule find_hit_exists) blast

text \<open>What \<open>addBookingToRide\<close> can do for a ride of the store.\<close>

lemma addBookingToRide_cases:
  assumes "r \<in> set (rides s)"
  shows "snd (addBookingToRide s (ride_id r) bid p d) = s \<or>
     (\<exists>np. snd (addBookingToRide s (ride_id r) bid p d) =
        s\<lparr>bookings := updateWhere (\<lambda>x. booking_id x = bid) (confirmOn (ride_id r)) (bookings s),
          rides := updateWhere (\<lambda>x. ride_id x = ride_id r) (\<lambda>x. x\<lparr>path := np\<rparr>) (rides s)\<rparr>)"
proof (cases "findUniqueBooking s bid")
  case None
  then show ?thesis by (simp add: addBookingToRide_def updateBooking_def Let_def)
next
  case (Some b)
  from assms obtain y where y: "find (\<lambda>z. ride_id z = ride_id r) (rides s) = Some y"
    using find_in_set[of r "rides s" ride_id] by blast
  have "snd (addBookingToRide s (ride_id r) bid p d) =
        s\<lparr>bookings := updateWhere (\<lambda>x. booking_id x = bid) (confirmOn (ride_id r)) (bookings s),
          rides := updateWhere (\<lambda>x. ride_id x = ride_id r) (\<lambda>x. x\<lparr>path := path y @ [p, d]\<rparr>)
                     (rides s)\<rparr>"
    using Some y
    by (simp add: addBookingToRide_def updateBooking_def updateRide_def findUniqueRide_def
        Let_def)
  then show ?thesis by blast
qed

text \<open>What \<open>matchRide\<close> can do to a store with unique driver identifiers.\<close>

lemma matchRide_cases:
  assumes "distinct (map driver_id (drivers s))"
  shows "snd (matchRide s bid p d) = s \<or>
     (\<exists>r np. r \<in> set (rides s) \<and> ride_status r = SCHEDULED \<and>
        snd (matchRide s bid p d) =
        s\<lparr>bookings := updateWhere (\<lambda>x. booking_id x = bid) (confirmOn (ride_id r)) (bookings s),
          rides := updateWhere (\<lambda>x. ride_id x = ride_id r) (\<lambda>x. x\<lparr>path := np\<rparr>) (rides s)\<rparr>) \<or>
     (\<exists>i. (\<exists>v\<in>set (drivers s). claimHit i v) \<and>
        snd (matchRide s bid p d) =
          s\<lparr>drivers := updateWhere (claimHit i) markBusy (drivers s),
            rides := rides s @ [newRide s i p d],
            bookings := updateWhere (\<lambda>x. booking_id x = bid)
                          (confirmOn (ride_id (newRide s i p d))) (bookings s)\<rparr>)"
proof (cases "findExistingRide s p d")
  case (Inl e)
  then show ?thesis by (simp add: matchRide_def)
next
  case (Inr found)
  show ?thesis
  proof (cases found)
    case None
    with Inr have "matchRide s bid p d = claimLoop (findAvailableDrivers s) s bid p d"
      by (simp add: matchRide_def createNewRide_def)
    with claimLoop_cases[OF assms, of "findAvailableDrivers s" bid p d]
    show ?thesis by auto
  next
    case (Some r)
    with Inr have r: "r \<in> set (rides s)" "ride_status r = SCHEDULED"
      using findExistingRide_Some[of s p d r] by simp_all
    from Inr Some have "matchRide s bid p d = addBookingToRide s (ride_id r) bid p d"
      by (simp add: matchRide_def)
    with addBookingToRide_cases[OF r(1), of bid p d] r
    show ?thesis by auto
  qed
qed

text \<open>What \<open>cancelBooking\<close> can do.\<close>

lemma cancelBooking_cases:
  "snd (cancelBooking s idp) = s \<or>
   (\<exists>i b. findUniqueBooking s i = Some b \<and> booking_status b \<noteq> CANCELLED \<and>
      (snd (cancelBooking s idp) =
         s\<lparr>bookings := updateWhere (\<lambda>x. booking_id x = i) cancelled (bookings s)\<rparr> \<or>
       (\<exists>ride. rideId b = Some (ride_id ride) \<and> ride \<in> set (rides s) \<and>
          otherActive s (ride_id ride) i = [] \<and>
          snd (cancelBooking s idp) =
            s\<lparr>bookings := updateWhere (\<lambda>x. booking_id x = i) cancelled (bookings s),
              rides := updateWhere (\<lambda>r. ride_id r = ride_id ride) closeRide (rides s),
              drivers := updateWhere (\<lambda>v. driver_id v = driverId ride) release (drivers s)\<rparr>)))"
proof (cases idp)
  case None
  then show ?thesis by (simp add: cancelBooking_def)
next
  case (Some i)
  show ?thesis
  proof (cases "findUniqueBooking s i")
    case None
    with Some show ?thesis by (simp add: cancelBooking_def)
  next
    case b: (Some b)
    have idb: "booking_id b = i" using b by (rule findUniqueBooking_id)
    show ?thesis
    proof (cases "booking_status b = CANCELLED")
      case True
      with Some b show ?thesis by (simp add: cancelBooking_def)
    next
      case False
      let ?s1 = "s\<lparr>bookings := updateWhere (\<lambda>x. booking_id x = i) cancelled (bookings s)\<rparr>"
      have ub: "updateBooking (booking_id b) (\<lambda>b. b\<lparr>booking_status := CANCELLED\<rparr>) s = Inr ?s1"
        using b by (simp add: idb updateBooking_found cancelled_fold)
      show ?thesis
      proof (cases "bookingRide s b")
        case None
        then have "snd (cancelBooking s idp) = ?s1"
          using Some b False by (simp add: cancelBooking_def cancelTx_def ub)
        with b False show ?thesis by blast
      next
        case br: (Some pair)
        obtain ride bs where pair: "pair = (ride, bs)" by (cases pair)
        from br pair obtain rid where rid: "rideId b = Some rid"
            "findUniqueRide s rid = Some ride"
            "bs = filter (\<lambda>x. rideId x = Some rid) (bookings s)"
          by (auto simp: bookingRide_def split: option.splits)
        have ridr: "ride_id ride = rid" "ride \<in> set (rides s)"
          using rid(2) by (auto simp: findUniqueRide_def dest: find_Some_prop)
        have act: "filter (\<lambda>x. booking_id x \<noteq> booking_id b \<and> booking_status x \<noteq> CANCELLED) bs
            = otherActive s rid i"
          by (simp add: rid(3) otherActive_def idb)
        show ?thesis
        proof (cases "otherActive s rid i = []")
          case False
          then have "snd (cancelBooking s idp) = ?s1"
            using Some b \<open>booking_status b \<noteq> CANCELLED\<close>
            by (simp add: cancelBooking_def cancelTx_def ub br pair act del: filter_filter)
          with b \<open>booking_status b \<noteq> CANCELLED\<close> show ?thesis by blast
        next
          case True
          have fr: "findUniqueRide ?s1 (ride_id ride) = Some ride"
            using rid(2) ridr by (simp add: findUniqueRide_def)
          show ?thesis
          proof (cases "findUniqueDriver s (driverId ride)")
            case None
            then have "snd (cancelBooking s idp) = s"
              using Some b \<open>booking_status b \<noteq> CANCELLED\<close> True fr
              by (simp add: cancelBooking_def cancelTx_def ub br pair act updateRide_def
                  updateDriver_def findUniqueDriver_def del: filter_filter)
            then show ?thesis by simp
          next
            case (Some v)
            then have "snd (cancelBooking s idp) =
              s\<lparr>bookings := updateWhere (\<lambda>x. booking_id x = i) cancelled (bookings s),
                rides := updateWhere (\<lambda>r. ride_id r = ride_id ride) closeRide (rides s),
                drivers := updateWhere (\<lambda>v. driver_id v = driverId ride) release (drivers s)\<rparr>"
              using \<open>idp = Some i\<close> b \<open>booking_status b \<noteq> CANCELLED\<close> True fr
              by (simp add: cancelBooking_def cancelTx_def ub br pair act updateRide_def
                  updateDriver_def findUniqueDriver_def release_fold closeRide_fold
                  del: filter_filter)
            with b \<open>booking_status b \<noteq> CANCELLED\<close> rid(1) ridr True show ?thesis
              by blast
          qed
        qed
      qed
    qed
  qed
qed

lemma consistent_counts:
  assumes "consistent s"
  shows "busyCount s = scheduledCount s"
proof -
  have "distinct (busyIds s)"
    using assms unfolding consistent_def busyIds_def by (simp add: distinct_map_filter)
  have "busyCount s = length (busyIds s)"
    by (simp add: busyIds_def busyCount_def)
  also have "\<dots> = card (set (busyIds s))"
    using \<open>distinct (busyIds s)\<close> by (simp add: distinct_card)
  also have "\<dots> = card (set (schedDrivers s))"
    using assms by (simp add: consistent_def)
  also have "\<dots> = length (schedDrivers s)"
  proof -
    have "distinct (schedDrivers s)" using assms by (simp add: consistent_def)
    then show ?thesis by (rule distinct_card)
  qed
  also have "\<dots> = scheduledCount s"
    by (simp add: schedDrivers_def scheduledCount_def)
  finally show ?thesis .
qed

lemma consistent_attach:
  assumes c: "consistent s" and r: "r \<in> set (rides s)" "ride_status r = SCHEDULED"
  shows "consistent
     (s\<lparr>bookings := updateWhere (\<lambda>x. booking_id x = bid) (confirmOn (ride_id r)) (bookings s),
       rides := updateWhere (\<lambda>x. ride_id x = ride_id r) (\<lambda>x. x\<lparr>path := np\<rparr>) (rides s)\<rparr>)"
    (is "consistent ?s'")
proof -
  have ids: "map ride_id (rides ?s') = map ride_id (rides s)"
    by (simp add: updateWhere_map_proj)
  have sd: "schedDrivers ?s' = schedDrivers s"
    by (simp add: schedDrivers_def updateWhere_filter_proj)
  have bi: "busyIds ?s' = busyIds s"
    by (simp add: busyIds_def)
  have uniq: "\<And>x. x \<in> set (rides s) \<Longrightarrow> ride_id x = ride_id r \<Longrightarrow> x = r"
    using c r(1) by (simp add: consistent_def distinct_map inj_on_def)
  have "openRefs ?s'"
    unfolding openRefs_def
  proof (intro ballI impI)
    fix b' r'
    assume b': "b' \<in> set (bookings ?s')" "booking_status b' \<noteq> CANCELLED"
      and r': "r' \<in> set (rides ?s')" "rideId b' = Some (ride_id r')"
    from r'(1) obtain r0 where r0: "r0 \<in> set (rides s)"
        "r' = (if ride_id r0 = ride_id r then r0\<lparr>path := np\<rparr> else r0)"
      by (auto simp: set_updateWhere)
    then have same: "ride_id r' = ride_id r0" "ride_status r' = ride_status r0"
      by simp_all
    from b'(1) obtain b0 where b0: "b0 \<in> set (bookings s)"
        "b' = (if booking_id b0 = bid then confirmOn (ride_id r) b0 else b0)"
      by (auto simp: set_updateWhere)
    show "ride_status r' = SCHEDULED"
    proof (cases "booking_id b0 = bid")
      case True
      with b0 r'(2) same have "ride_id r0 = ride_id r" by (simp add: confirmOn_def)
      with uniq r0(1) have "r0 = r" by blast
      with r(2) same show ?thesis by simp
    next
      case False
      with b0 b' r'(2) same have "booking_status b0 \<noteq> CANCELLED" "rideId b0 = Some (ride_id r0)"
        by simp_all
      with c b0(1) r0(1) have "ride_status r0 = SCHEDULED"
        unfolding consistent_def openRefs_def by blast
      with same show ?thesis by simp
    qed
  qed
  with c ids sd bi show ?thesis
    unfolding consistent_def by simp
qed

lemma consistent_open:
  assumes c: "consistent s" and hit: "\<exists>v\<in>set (drivers s). claimHit i v"
  shows "consistent
     (s\<lparr>drivers := updateWhere (claimHit i) markBusy (drivers s),
       rides := rides s @ [newRide s i p d],
       bookings := updateWhere (\<lambda>x. booking_id x = bid)
                     (confirmOn (ride_id (newRide s i p d))) (bookings s)\<rparr>)"
    (is "consistent ?s'")
proof -
  have dids: "map driver_id (drivers ?s') = map driver_id (drivers s)"
    by (simp add: updateWhere_map_proj markBusy_def)
  have fresh: "ride_id (newRide s i p d) \<notin> ride_id ` set (rides s)"
    using freshRideId_fresh[of "rides s"] by (simp add: newRide_def)
  have rids: "distinct (map ride_id (rides ?s'))"
    using c fresh by (simp add: consistent_def)
  have sd: "schedDrivers ?s' = schedDrivers s @ [i]"
    by (simp add: schedDrivers_def newRide_def)
  from hit obtain v where v: "v \<in> set (drivers s)" "claimHit i v" by blast
  have notbusy: "i \<notin> set (busyIds s)"
    using claim_target_not_busy[OF _ v] c by (simp add: consistent_def busyIds_def)
  have bi: "set (busyIds ?s') = insert i (set (busyIds s))"
    using claim_adds[OF hit] by (simp add: busyIds_def)
  have dsd: "distinct (schedDrivers ?s')"
    using c notbusy by (simp add: sd consistent_def)
  have eq: "set (schedDrivers ?s') = set (busyIds ?s')"
    using c by (simp add: sd bi consistent_def)
  have "openRefs ?s'"
    unfolding openRefs_def
  proof (intro ballI impI)
    fix b' r'
    assume b': "b' \<in> set (bookings ?s')" "booking_status b' \<noteq> CANCELLED"
      and r': "r' \<in> set (rides ?s')" "rideId b' = Some (ride_id r')"
    from b'(1) obtain b0 where b0: "b0 \<in> set (bookings s)"
        "b' = (if booking_id b0 = bid then confirmOn (ride_id (newRide s i p d)) b0 else b0)"
      by (auto simp: set_updateWhere)
    show "ride_status r' = SCHEDULED"
    proof (cases "r' = newRide s i p d")
      case True
      then show ?thesis by (simp add: newRide_def)
    next
      case False
      with r'(1) have old: "r' \<in> set (rides s)" by simp
      show ?thesis
      proof (cases "booking_id b0 = bid")
        case True
        with b0 r'(2) have "ride_id r' = ride_id (newRide s i p d)"
          by (simp add: confirmOn_def)
        with fresh old have False by (metis imageI)
        then show ?thesis ..
      next
        case False
        with b0 b' r'(2) have "booking_status b0 \<noteq> CANCELLED" "rideId b0 = Some (ride_id r')"
          by simp_all
        with c b0(1) old show ?thesis
          unfolding consistent_def openRefs_def by blast
      qed
    qed
  qed
  with c dids rids dsd eq show ?thesis
    unfolding consistent_def by simp
qed

lemma consistent_cancel_only:
  assumes c: "consistent s"
  shows "consistent (s\<lparr>bookings := updateWhere (\<lambda>x. booking_id x = i) cancelled (bookings s)\<rparr>)"
    (is "consistent ?s'")
proof -
  have "openRefs ?s'"
    unfolding openRefs_def
  proof (intro ballI impI)
    fix b' r'
    assume b': "b' \<in> set (bookings ?s')" "booking_status b' \<noteq> CANCELLED"
      and r': "r' \<in> set (rides ?s')" "rideId b' = Some (ride_id r')"
    from b'(1) obtain b0 where b0: "b0 \<in> set (bookings s)"
        "b' = (if booking_id b0 = i then cancelled b0 else b0)"
      by (auto simp: set_updateWhere)
    with b'(2) have "b' = b0" by (auto simp: cancelled_def split: if_splits)
    with c b0(1) b'(2) r' show "ride_status r' = SCHEDULED"
      unfolding consistent_def openRefs_def by auto
  qed
  with c show ?thesis
    unfolding consistent_def by (simp add: schedDrivers_def busyIds_def)
qed

lemma consistent_cancel_release:
  assumes c: "consistent s" and b: "findUniqueBooking s i = Some b"
    and nc: "booking_status b \<noteq> CANCELLED" and rid: "rideId b = Some (ride_id ride)"
    and ride: "ride \<in> set (rides s)" and last: "otherActive s (ride_id ride) i = []"
  shows "consistent
     (s\<lparr>bookings := updateWhere (\<lambda>x. booking_id x = i) cancelled (bookings s),
       rides := updateWhere (\<lambda>r. ride_id r = ride_id ride) closeRide (rides s),
       drivers := updateWhere (\<lambda>v. driver_id v = driverId ride) release (drivers s)\<rparr>)"
    (is "consistent ?s'")
proof -
  have bin: "b \<in> set (bookings s)"
    using b by (auto simp: findUniqueBooking_def dest: find_Some_prop)
  have sched: "ride_status ride = SCHEDULED"
    using c bin nc rid ride unfolding consistent_def openRefs_def by blast
  have uniq: "\<And>x. x \<in> set (rides s) \<Longrightarrow> ride_id x = ride_id ride \<Longrightarrow> x = ride"
    using c ride by (simp add: consistent_def distinct_map inj_on_def)
  have dids: "map driver_id (drivers ?s') = map driver_id (drivers s)"
    by (simp add: updateWhere_map_proj release_def)
  have rids: "map ride_id (rides ?s') = map ride_id (rides s)"
    by (simp add: updateWhere_map_proj closeRide_def)
  have sd: "schedDrivers ?s' =
      map driverId (filter (\<lambda>r. ride_status r = SCHEDULED \<and> ride_id r \<noteq> ride_id ride) (rides s))"
    by (simp add: schedDrivers_def closeRide_drops)
  have bi: "busyIds ?s' =
      map driver_id (filter (\<lambda>v. driver_status v = BUSY \<and> driver_id v \<noteq> driverId ride) (drivers s))"
    by (simp add: busyIds_def release_drops)
  have dsd0: "distinct (map driverId (filter (\<lambda>r. ride_status r = SCHEDULED) (rides s)))"
    using c by (simp add: consistent_def schedDrivers_def)
  have dsd: "distinct (schedDrivers ?s')"
  proof -
    have "filter (\<lambda>r. ride_status r = SCHEDULED \<and> ride_id r \<noteq> ride_id ride) (rides s)
        = filter (\<lambda>r. ride_id r \<noteq> ride_id ride) (filter (\<lambda>r. ride_status r = SCHEDULED) (rides s))"
      by (simp add: conj_commute)
    then show ?thesis
      using dsd0 by (simp only: sd distinct_map_filter)
  qed
  have inj: "\<And>x. x \<in> set (rides s) \<Longrightarrow> ride_status x = SCHEDULED \<Longrightarrow>
                  driverId x = driverId ride \<Longrightarrow> x = ride"
    using dsd0 ride sched by (auto simp: distinct_map inj_on_def)
  have s1: "set (schedDrivers ?s') = set (schedDrivers s) - {driverId ride}"
  proof (intro set_eqI iffI)
    fix k assume "k \<in> set (schedDrivers ?s')"
    then obtain x where x: "x \<in> set (rides s)" "ride_status x = SCHEDULED"
        "ride_id x \<noteq> ride_id ride" "k = driverId x"
      by (auto simp: sd)
    then have "x \<noteq> ride" by auto
    with inj x have "driverId x \<noteq> driverId ride" by blast
    with x show "k \<in> set (schedDrivers s) - {driverId ride}"
      by (auto simp: schedDrivers_def)
  next
    fix k assume "k \<in> set (schedDrivers s) - {driverId ride}"
    then obtain x where x: "x \<in> set (rides s)" "ride_status x = SCHEDULED"
        "k = driverId x" "driverId x \<noteq> driverId ride"
      by (auto simp: schedDrivers_def)
    then have "ride_id x \<noteq> ride_id ride" using uniq by auto
    with x show "k \<in> set (schedDrivers ?s')" by (auto simp: sd)
  qed
  have s2: "set (busyIds ?s') = set (busyIds s) - {driverId ride}"
    by (simp only: bi) (auto simp: busyIds_def)
  have eq: "set (schedDrivers ?s') = set (busyIds ?s')"
    using c by (simp add: s1 s2 consistent_def)
  have "openRefs ?s'"
    unfolding openRefs_def
  proof (intro ballI impI)
    fix b' r'
    assume b': "b' \<in> set (bookings ?s')" "booking_status b' \<noteq> CANCELLED"
      and r': "r' \<in> set (rides ?s')" "rideId b' = Some (ride_id r')"
    from b'(1) obtain b0 where b0: "b0 \<in> set (bookings s)"
        "b' = (if booking_id b0 = i then cancelled b0 else b0)"
      by (auto simp: set_updateWhere)
    with b'(2) have bb: "b' = b0" "booking_id b0 \<noteq> i"
      by (auto simp: cancelled_def split: if_splits)
    from r'(1) obtain r0 where r0: "r0 \<in> set (rides s)"
        "r' = (if ride_id r0 = ride_id ride then closeRide r0 else r0)"
      by (auto simp: set_updateWhere)
    then have same: "ride_id r' = ride_id r0" by (simp add: closeRide_def)
    show "ride_status r' = SCHEDULED"
    proof (cases "ride_id r0 = ride_id ride")
      case True
      with bb b0(1) b'(2) r'(2) same have "b0 \<in> set (otherActive s (ride_id ride) i)"
        by (simp add: otherActive_def)
      with last show ?thesis by simp
    next
      case False
      with r0 have "r' = r0" by simp
      with c b0(1) r0(1) bb b'(2) r'(2) show ?thesis
        unfolding consistent_def openRefs_def by blast
    qed
  qed
  with c dids rids dsd eq show ?thesis
    unfolding consistent_def by simp
qed

lemma consistent_step:
  assumes "consistent s"
  shows "consistent (step s op)"
proof (cases op)
  case (MatchRequest bid p d)
  have dd: "distinct (map driver_id (drivers s))"
    using assms by (simp add: consistent_def)
  from matchRide_cases[OF dd, of bid p d]
  consider "snd (matchRide s bid p d) = s"
    | r np where "r \<in> set (rides s)" "ride_status r = SCHEDULED"
        "snd (matchRide s bid p d) =
          s\<lparr>bookings := updateWhere (\<lambda>x. booking_id x = bid) (confirmOn (ride_id r)) (bookings s),
            rides := updateWhere (\<lambda>x. ride_id x = ride_id r) (\<lambda>x. x\<lparr>path := np\<rparr>) (rides s)\<rparr>"
    | i where "\<exists>v\<in>set (drivers s). claimHit i v"
        "snd (matchRide s bid p d) =
          s\<lparr>drivers := updateWhere (claimHit i) markBusy (drivers s),
            rides := rides s @ [newRide s i p d],
            bookings := updateWhere (\<lambda>x. booking_id x = bid)
                          (confirmOn (ride_id (newRide s i p d))) (bookings s)\<rparr>"
    by blast
  then have "consistent (snd (matchRide s bid p d))"
  proof cases
    case 1
    with assms show ?thesis by simp
  next
    case 2
    from consistent_attach[OF assms 2(1,2), where bid = bid and np = np] 2(3) show ?thesis by simp
  next
    case 3
    from consistent_open[OF assms 3(1), where p = p and d = d and bid = bid] 3(2) show ?thesis by simp
  qed
  with MatchRequest show ?thesis by simp
next
  case (CancelRequest idp)
  from cancelBooking_cases[of s idp]
  consider "snd (cancelBooking s idp) = s"
    | i where "snd (cancelBooking s idp) =
         s\<lparr>bookings := updateWhere (\<lambda>x. booking_id x = i) cancelled (bookings s)\<rparr>"
    | i b ride where "findUniqueBooking s i = Some b" "booking_status b \<noteq> CANCELLED"
        "rideId b = Some (ride_id ride)" "ride \<in> set (rides s)"
        "otherActive s (ride_id ride) i = []"
        "snd (cancelBooking s idp) =
            s\<lparr>bookings := updateWhere (\<lambda>x. booking_id x = i) cancelled (bookings s),
              rides := updateWhere (\<lambda>r. ride_id r = ride_id ride) closeRide (rides s),
              drivers := updateWhere (\<lambda>v. driver_id v = driverId ride) release (drivers s)\<rparr>"
    by blast
  then have "consistent (snd (cancelBooking s idp))"
  proof cases
    case 1
    with assms show ?thesis by simp
  next
    case 2
    from consistent_cancel_only[OF assms, of i] 2 show ?thesis by simp
  next
    case 3
    from consistent_cancel_release[OF assms 3(1-5)] 3(6) show ?thesis by simp
  qed
  with CancelRequest show ?thesis by simp
qed

lemma run_snoc: "run s (ops @ [op]) = step (run s ops) op"
  by (simp add: run_def)

lemma consistent_run: "consistent s \<Longrightarrow> consistent (run s ops)"
  by (induction ops rule: rev_induct) (simp_all add: run_snoc consistent_step, simp add: run_def)

lemma idle_consistent:
  assumes "\<forall>v\<in>set (drivers s). driver_status v = AVAILABLE" "rides s = []"
    "distinct (map driver_id (drivers s))"
  shows "consistent s"
proof -
  have "filter (\<lambda>v. driver_status v = BUSY) (drivers s) = []"
    using assms(1) by (auto simp: filter_empty_conv)
  then show ?thesis
    using assms(2,3) by (simp add: consistent_def schedDrivers_def busyIds_def openRefs_def)
qed

lemma drivers_length_step:
  assumes "consistent s"
  shows "length (drivers (step s op)) = length (drivers s)"
proof (cases op)
  case (MatchRequest bid p d)
  have dd: "distinct (map driver_id (drivers s))"
    using assms by (simp add: consistent_def)
  from matchRide_cases[OF dd, of bid p d]
  have "length (drivers (snd (matchRide s bid p d))) = length (drivers s)"
    by (auto simp: length_updateWhere)
  with MatchRequest show ?thesis by simp
next
  case (CancelRequest idp)
  from cancelBooking_cases[of s idp]
  have "length (drivers (snd (cancelBooking s idp))) = length (drivers s)"
    by (auto simp: length_updateWhere)
  with CancelRequest show ?thesis by simp
qed

lemma drivers_length_run:
  "consistent s \<Longrightarrow> length (drivers (run s ops)) = length (drivers s)"
proof (induction ops rule: rev_induct)
  case Nil
  show ?case by (simp add: run_def)
next
  case (snoc op ops)
  then show ?case
    by (simp add: run_snoc drivers_length_step consistent_run)
qed

lemma all_scheduled_match:
  assumes "distinct (map driver_id (drivers s))" "\<forall>r\<in>set (rides s). ride_status r = SCHEDULED"
  shows "\<forall>r\<in>set (rides (snd (matchRide s bid p d))). ride_status r = SCHEDULED"
  using matchRide_cases[OF assms(1), of bid p d]
proof (elim disjE exE conjE)
  assume "snd (matchRide s bid p d) = s"
  with assms(2) show ?thesis by simp
next
  fix r np
  assume "snd (matchRide s bid p d) =
      s\<lparr>bookings := updateWhere (\<lambda>x. booking_id x = bid) (confirmOn (ride_id r)) (bookings s),
        rides := updateWhere (\<lambda>x. ride_id x = ride_id r) (\<lambda>x. x\<lparr>path := np\<rparr>) (rides s)\<rparr>"
  then have "rides (snd (matchRide s bid p d)) =
      updateWhere (\<lambda>x. ride_id x = ride_id r) (\<lambda>x. x\<lparr>path := np\<rparr>) (rides s)"
    by simp
  with assms(2) show ?thesis by (auto simp: set_updateWhere)
next
  fix i
  assume "snd (matchRide s bid p d) =
      s\<lparr>drivers := updateWhere (claimHit i) markBusy (drivers s),
        rides := rides s @ [newRide s i p d],
        bookings := updateWhere (\<lambda>x. booking_id x = bid)
                      (confirmOn (ride_id (newRide s i p d))) (bookings s)\<rparr>"
  then have "rides (snd (matchRide s bid p d)) = rides s @ [newRide s i p d]"
    by simp
  with assms(2) show ?thesis by (auto simp: newRide_def)
qed

lemma all_scheduled_run:
  assumes "consistent s" "\<forall>r\<in>set (rides s). ride_status r = SCHEDULED" "list_all isMatch ops"
  shows "\<forall>r\<in>set (rides (run s ops)). ride_status r = SCHEDULED"
  using assms(3)
proof (induction ops rule: rev_induct)
  case Nil
  with assms(2) show ?case by (simp add: run_def)
next
  case (snoc op ops)
  then have ih: "\<forall>r\<in>set (rides (run s ops)). ride_status r = SCHEDULED" by simp
  from snoc.prems obtain bid p d where op: "op = MatchRequest bid p d"
    by (cases op) simp_all
  have "distinct (map driver_id (drivers (run s ops)))"
    using consistent_run[OF assms(1), of ops] by (simp add: consistent_def)
  from all_scheduled_match[OF this ih, of bid p d] show ?case
    by (simp add: run_snoc op)
qed

text \<open>
  C1, as the code has it.  Start from a store in which every driver is AVAILABLE, no ride
  exists and the driver identifiers are unique, and run any sequence of \<open>matchRide\<close> and
  \<open>cancelBooking\<close> calls.  After the sequence (hence after each of its prefixes) the
  number of BUSY drivers equals the number of SCHEDULED rides, and the number of SCHEDULED
  rides is at most the number of drivers the run started with.  If the sequence holds no
  cancellation, the number of rides ever created is at most that number too.
\<close>

theorem busy_equals_scheduled:
  assumes "\<forall>v\<in>set (drivers s0). driver_status v = AVAILABLE" and "rides s0 = []"
    and "distinct (map driver_id (drivers s0))"
  shows "busyCount (run s0 ops) = scheduledCount (run s0 ops) \<and>
         scheduledCount (run s0 ops) \<le> length (drivers s0) \<and>
         (list_all isMatch ops \<longrightarrow> tripsCreated (run s0 ops) \<le> length (drivers s0))"
proof -
  have c0: "consistent s0" using assms by (rule idle_consistent)
  then have c: "consistent (run s0 ops)" by (rule consistent_run)
  then have eq: "busyCount (run s0 ops) = scheduledCount (run s0 ops)"
    by (rule consistent_counts)
  have "busyCount (run s0 ops) \<le> length (drivers (run s0 ops))"
    by (simp add: busyCount_def)
  then have le: "scheduledCount (run s0 ops) \<le> length (drivers s0)"
    using eq drivers_length_run[OF c0, of ops] by simp
  have "tripsCreated (run s0 ops) \<le> length (drivers s0)" if m: "list_all isMatch ops"
  proof -
    have "\<forall>r\<in>set (rides (run s0 ops)). ride_status r = SCHEDULED"
      using c0 _ m by (rule all_scheduled_run) (simp add: assms(2))
    then have "filter (\<lambda>r. ride_status r = SCHEDULED) (rides (run s0 ops)) = rides (run s0 ops)"
      by (simp add: filter_id_conv)
    then have "tripsCreated (run s0 ops) = scheduledCount (run s0 ops)"
      by (simp add: tripsCreated_def scheduledCount_def)
    with le show ?thesis by simp
  qed
  with eq le show ?thesis by blast
qed

lemma oneDriver_step1:
  "step oneDriverDb (MatchRequest 0 northPole southPole) =
     \<lparr>drivers = [mkDriver 0 BUSY],
      rides = [mkRide 0 0 [northPole, southPole] SCHEDULED],
      bookings = [mkBooking 0 northPole southPole CONFIRMED (Some 0),
                  mkBooking 1 southPole northPole PENDING None]\<rparr>"
  by (simp add: oneDriverDb_def matchRide_def findExistingRide_def findScheduledRides_def
      createNewRide_def findAvailableDrivers_def claimDriver_def createRideTx_def
      createRide_def freshRideId_def updateBooking_def confirmOn_def example_simps Let_def)

lemma oneDriver_step2:
  "step \<lparr>drivers = [mkDriver 0 BUSY],
      rides = [mkRide 0 0 [northPole, southPole] SCHEDULED],
      bookings = [mkBooking 0 northPole southPole CONFIRMED (Some 0),
                  mkBooking 1 southPole northPole PENDING None]\<rparr> (CancelRequest (Some 0)) =
     \<lparr>drivers = [mkDriver 0 AVAILABLE],
      rides = [mkRide 0 0 [northPole, southPole] COMPLETED],
      bookings = [mkBooking 0 northPole southPole CANCELLED (Some 0),
                  mkBooking 1 southPole northPole PENDING None]\<rparr>"
  by (simp add: cancelBooking_def cancelTx_def bookingRide_def updateBooking_def
      updateRide_def updateDriver_def example_simps Let_def)

lemma oneDriver_step3:
  "step \<lparr>drivers = [mkDriver 0 AVAILABLE],
      rides = [mkRide 0 0 [northPole, southPole] COMPLETED],
      bookings = [mkBooking 0 northPole southPole CANCELLED (Some 0),
                  mkBooking 1 southPole northPole PENDING None]\<rparr>
     (MatchRequest 1 southPole northPole) =
     \<lparr>drivers = [mkDriver 0 BUSY],
      rides = [mkRide 0 0 [northPole, southPole] COMPLETED,
               mkRide 1 0 [southPole, northPole] SCHEDULED],
      bookings = [mkBooking 0 northPole southPole CANCELLED (Some 0),
                  mkBooking 1 southPole northPole CONFIRMED (Some 1)]\<rparr>"
  by (simp add: matchRide_def findExistingRide_def findScheduledRides_def
      createNewRide_def findAvailableDrivers_def claimDriver_def createRideTx_def
      createRide_def freshRideId_def updateBooking_def confirmOn_def example_simps Let_def)

lemma oneDriver_run:
  "run oneDriverDb [MatchRequest 0 northPole southPole, CancelRequest (Some 0),
                    MatchRequest 1 southPole northPole] =
     \<lparr>drivers = [mkDriver 0 BUSY],
      rides = [mkRide 0 0 [northPole, southPole] COMPLETED,
               mkRide 1 0 [southPole, northPole] SCHEDULED],
      bookings = [mkBooking 0 northPole southPole CANCELLED (Some 0),
                  mkBooking 1 southPole northPole CONFIRMED (Some 1)]\<rparr>"
  by (simp only: run_def foldl.simps oneDriver_step1 oneDriver_step2 oneDriver_step3)

theorem busy_equals_scheduled_witness:
  "map driver_status (drivers oneDriverDb) = [AVAILABLE] \<and> rides oneDriverDb = [] \<and>
   distinct (map driver_id (drivers oneDriverDb)) \<and>
   busyCount (run oneDriverDb [MatchRequest 0 northPole southPole, CancelRequest (Some 0),
                               MatchRequest 1 southPole northPole]) = 1 \<and>
   scheduledCount (run oneDriverDb [MatchRequest 0 northPole southPole, CancelRequest (Some 0),
                                    MatchRequest 1 southPole northPole]) = 1 \<and>
   list_all isMatch [MatchRequest 0 northPole southPole] \<and>
   tripsCreated (run oneDriverDb [MatchRequest 0 northPole southPole]) \<le> 1"
proof -
  have h: "\<forall>v\<in>set (drivers oneDriverDb). driver_status v = AVAILABLE"
      "rides oneDriverDb = []" "distinct (map driver_id (drivers oneDriverDb))"
    by (simp_all add: oneDriverDb_def mkDriver_def)
  note a = busy_equals_scheduled[OF h, of "[MatchRequest 0 northPole southPole,
      CancelRequest (Some 0), MatchRequest 1 southPole northPole]"]
  note b = busy_equals_scheduled[OF h, of "[MatchRequest 0 northPole southPole]"]
  have s: "scheduledCount (run oneDriverDb [MatchRequest 0 northPole southPole,
      CancelRequest (Some 0), MatchRequest 1 southPole northPole]) = 1"
    by (simp only: oneDriver_run) (simp add: scheduledCount_def mkRide_def)
  have l: "length (drivers oneDriverDb) = 1"
    by (simp add: oneDriverDb_def)
  have m: "list_all isMatch [MatchRequest 0 northPole southPole]" by simp
  from a s have "busyCount (run oneDriverDb [MatchRequest 0 northPole southPole,
      CancelRequest (Some 0), MatchRequest 1 southPole northPole]) = 1" by simp
  moreover from b m l have "tripsCreated (run oneDriverDb [MatchRequest 0 northPole southPole]) \<le> 1"
    by simp
  moreover have "map driver_status (drivers oneDriverDb) = [AVAILABLE]"
    by (simp add: oneDriverDb_def mkDriver_def)
  ultimately show ?thesis using h s m by blast
qed

text \<open>
  C1 as stated does not hold once a cancellation releases a driver: with one idle
  driver, matching booking 0, cancelling it and matching booking 1 creates two rides.
\<close>

theorem trips_created_exceed_drivers:
  "map driver_status (drivers oneDriverDb) = [AVAILABLE] \<and> rides oneDriverDb = [] \<and>
   tripsCreated (run oneDriverDb [MatchRequest 0 northPole southPole, CancelRequest (Some 0),
                                  MatchRequest 1 southPole northPole]) = 2 \<and>
   \<not> tripsCreated (run oneDriverDb [MatchRequest 0 northPole southPole, CancelRequest (Some 0),
                                    MatchRequest 1 southPole northPole])
       \<le> length (drivers oneDriverDb)"
  by (simp only: oneDriver_run) (simp add: tripsCreated_def oneDriverDb_def mkDriver_def)

end
